theory Spec2Isabelle
  imports Complex_Main "HOL-Library.Sublist"
begin

section \<open>Strings\<close>

text \<open>
  A JavaScript string is modelled as a \<^typ>\<open>string\<close>: a list of 8-bit characters, each
  standing for one UTF-16 code unit below 256 (the Latin-1 range), so that \<open>length\<close> is
  the \<open>.length\<close> of the source. On that range \<open>toLowerCase\<close> maps \<open>A..Z\<close> and the
  accented capitals \<open>0xC0..0xDE\<close> (except the multiplication sign \<open>0xD7\<close>) to the code
  unit 32 above, which is the same as setting bit 5, and leaves every other code unit alone.
\<close>

definition is_upper :: "char \<Rightarrow> bool" where
  "is_upper c =
     (let n = (of_char c :: nat)
      in (65 \<le> n \<and> n \<le> 90) \<or> (192 \<le> n \<and> n \<le> 222 \<and> n \<noteq> 215))"

fun set_bit5 :: "char \<Rightarrow> char" where
  "set_bit5 (Char b0 b1 b2 b3 b4 b5 b6 b7) = Char b0 b1 b2 b3 b4 True b6 b7"

definition lower_char :: "char \<Rightarrow> char" where
  "lower_char c = (if is_upper c then set_bit5 c else c)"

definition toLowerCase :: "string \<Rightarrow> string" where
  "toLowerCase s = map lower_char s"

text \<open>\<open>s.includes(p)\<close>: \<open>p\<close> occurs in \<open>s\<close> as a contiguous substring.\<close>

definition str_includes :: "string \<Rightarrow> string \<Rightarrow> bool" where
  "str_includes s p = sublist p s"

text \<open>
  The regular expressions of the source are alternations of literal ASCII texts under the
  flags \<open>gi\<close>. A literal matches at the head of \<open>s\<close>, ignoring case, when its lower-cased
  text is a prefix of the lower-cased \<open>s\<close>; \<open>regex_test_i lits s\<close> says that
  \<open>s.match(/(l1|l2|...)/gi)\<close> is not \<open>null\<close>.
\<close>

definition prefix_i :: "string \<Rightarrow> string \<Rightarrow> bool" where
  "prefix_i p s = prefix (toLowerCase p) (toLowerCase s)"

definition regex_test_i :: "string list \<Rightarrow> string \<Rightarrow> bool" where
  "regex_test_i lits s = list_ex (\<lambda>p. str_includes (toLowerCase s) (toLowerCase p)) lits"

text \<open>
  \<open>s.replace(/pat/gi, rep)\<close> for a literal \<open>pat\<close> and a replacement text without
  \<open>$\<close>: scanning from the left, every match is replaced and the scan goes on behind it. The
  empty pattern matches before every character and at the end.
\<close>

function replace_gi :: "string \<Rightarrow> string \<Rightarrow> string \<Rightarrow> string" where
  "replace_gi pat rep s =
     (if prefix_i pat s then
        (if pat = [] then (case s of [] \<Rightarrow> rep | c # t \<Rightarrow> rep @ c # replace_gi pat rep t)
         else rep @ replace_gi pat rep (drop (length pat) s))
      else (case s of [] \<Rightarrow> [] | c # t \<Rightarrow> c # replace_gi pat rep t))"
  by pat_completeness auto
termination
proof (relation "measure (\<lambda>(pat, rep, s). length s)")
  show "wf (measure (\<lambda>(pat, rep, s). length s))" by simp
next
  fix pat rep s :: string and c t
  assume "s = c # t"
  then show "((pat, rep, t), (pat, rep, s)) \<in> measure (\<lambda>(pat, rep, s). length s)" by simp
next
  fix pat rep s :: string
  assume m: "prefix_i pat s" and ne: "pat \<noteq> []"
  from m have "length (toLowerCase pat) \<le> length (toLowerCase s)"
    unfolding prefix_i_def by (rule prefix_length_le)
  then have "length pat \<le> length s" by (simp add: toLowerCase_def)
  with ne have "length (drop (length pat) s) < length s" by (cases pat) auto
  then show "((pat, rep, drop (length pat) s), (pat, rep, s)) \<in> measure (\<lambda>(pat, rep, s). length s)"
    by simp
next
  fix pat rep s :: string and c t
  assume "s = c # t"
  then show "((pat, rep, t), (pat, rep, s)) \<in> measure (\<lambda>(pat, rep, s). length s)" by simp
qed

declare replace_gi.simps [simp del]

section \<open>Safe-response selectors (\<open>lib/utils.ts\<close>)\<close>

subsection \<open>\<open>PSYCHOLOGICAL_REDIRECTS\<close> and \<open>createSafeRedirectResponse\<close>\<close>

definition music_influence :: string where
  "music_influence = ''What was it about that music that created such a strong psychological connection for you? What was happening emotionally when you first encountered it?''"

definition creative_inspiration :: string where
  "creative_inspiration = ''That creative influence sounds significant to your development. How did encountering that work shift something psychologically for you?''"

definition formative_experience :: string where
  "formative_experience = ''Early creative influences often connect to deep psychological needs. What aspect of that experience felt most psychologically meaningful?''"

definition emotional_connection :: string where
  "emotional_connection = ''Strong responses to creative works often reveal psychological patterns. What do you think that particular connection suggests about your inner world?''"

definition psychological_significance :: string where
  "psychological_significance = ''From a psychological perspective, that pattern suggests several dynamics might be at play. What aspects feel most significant to you?''"

definition identity_formation_redirect :: string where
  "identity_formation_redirect = ''Creative preferences often reflect psychological development. How do you think that influence shaped your sense of identity?''"

definition attachment_pattern :: string where
  "attachment_pattern = ''The way we connect to creative works often mirrors our attachment patterns. What does your response to that tell you about your relational needs?''"

definition trauma_processing :: string where
  "trauma_processing = ''Sometimes creative works help us process difficult experiences. Did that piece connect to anything you were working through psychologically?''"

definition PSYCHOLOGICAL_REDIRECTS :: "string list" where
  "PSYCHOLOGICAL_REDIRECTS =
     [music_influence, creative_inspiration, formative_experience, emotional_connection,
      psychological_significance, identity_formation_redirect, attachment_pattern,
      trauma_processing]"

definition createSafeRedirectResponse :: "string \<Rightarrow> string list \<Rightarrow> string" where
  "createSafeRedirectResponse userMessage violations =
     (let lowerMessage = toLowerCase userMessage
      in if list_ex (\<lambda>v. str_includes v ''personal experiences'') violations
           then psychological_significance
         else if str_includes lowerMessage ''music'' \<or> str_includes lowerMessage ''album''
                 \<or> str_includes lowerMessage ''song''
           then music_influence
         else if str_includes lowerMessage ''creative'' \<or> str_includes lowerMessage ''art''
                 \<or> str_includes lowerMessage ''inspired''
           then creative_inspiration
         else if str_includes lowerMessage ''childhood'' \<or> str_includes lowerMessage ''early''
                 \<or> str_includes lowerMessage ''family''
           then formative_experience
         else if str_includes lowerMessage ''attachment''
                 \<or> str_includes lowerMessage ''relationship''
           then attachment_pattern
         else if str_includes lowerMessage ''trauma'' \<or> str_includes lowerMessage ''difficult''
                 \<or> str_includes lowerMessage ''process''
           then trauma_processing
         else emotional_connection)"

subsection \<open>\<open>SAFE_REDIRECTS\<close> and \<open>createSafeAnalysisResponse\<close> (fine-tuned prompt family)\<close>

definition cultural_analysis :: string where
  "cultural_analysis = ''What aspects of your cultural background most influence your creative expression?''"

definition personality_insight :: string where
  "personality_insight = ''What personality patterns do you recognize in your creative process?''"

definition creative_psychology :: string where
  "creative_psychology = ''How do you see your creative work serving your psychological needs?''"

definition musical_analysis :: string where
  "musical_analysis = ''What psychological role does music play in your emotional regulation?''"

definition collaboration_patterns :: string where
  "collaboration_patterns = ''What patterns do you notice in how you work with creative partners?''"

definition identity_formation :: string where
  "identity_formation = ''How has your creative identity evolved over time?''"

definition attachment_exploration :: string where
  "attachment_exploration = ''How do you typically handle criticism or feedback on your creative work?''"

definition cultural_expression :: string where
  "cultural_expression = ''What aspects of your cultural identity show up most in your artistic choices?''"

definition SAFE_REDIRECTS :: "string list" where
  "SAFE_REDIRECTS =
     [cultural_analysis, personality_insight, creative_psychology, musical_analysis,
      collaboration_patterns, identity_formation, attachment_exploration, cultural_expression]"

definition createSafeAnalysisResponse :: "string \<Rightarrow> string list \<Rightarrow> string" where
  "createSafeAnalysisResponse userMessage violations =
     (let lowerMessage = toLowerCase userMessage
      in if str_includes lowerMessage ''cultur'' \<or> str_includes lowerMessage ''background''
            \<or> str_includes lowerMessage ''identity''
           then cultural_analysis
         else if str_includes lowerMessage ''music'' \<or> str_includes lowerMessage ''song''
                 \<or> str_includes lowerMessage ''sound''
           then musical_analysis
         else if str_includes lowerMessage ''creative'' \<or> str_includes lowerMessage ''art''
                 \<or> str_includes lowerMessage ''express''
           then creative_psychology
         else if str_includes lowerMessage ''work'' \<or> str_includes lowerMessage ''collaborat''
                 \<or> str_includes lowerMessage ''partner''
           then collaboration_patterns
         else if str_includes lowerMessage ''pattern'' \<or> str_includes lowerMessage ''personality''
                 \<or> str_includes lowerMessage ''trait''
           then personality_insight
         else identity_formation)"

section \<open>Response validators (\<open>lib/utils.ts\<close>)\<close>

text \<open>
  \<open>s.match(/(a1|a2|...)/gi)\<close> returns the matched texts from left to right. At each
  position the alternatives are tried in the order written and the first that matches
  wins; the scan goes on behind the match. The alternatives of the source are literal
  texts, and one literal followed by \<open>\d+\<close> (one or more of the digits \<open>0..9\<close>, as
  many as there are).
\<close>

datatype alt = Lit string | LitDigits string

definition is_digit :: "char \<Rightarrow> bool" where
  "is_digit c = (let n = (of_char c :: nat) in 48 \<le> n \<and> n \<le> 57)"

fun match_alt_at :: "alt \<Rightarrow> string \<Rightarrow> nat option" where
  "match_alt_at (Lit p) s = (if prefix_i p s then Some (length p) else None)"
| "match_alt_at (LitDigits p) s =
     (if prefix_i p s then
        (let n = length (takeWhile is_digit (drop (length p) s))
         in if 0 < n then Some (length p + n) else None)
      else None)"

fun first_match_at :: "alt list \<Rightarrow> string \<Rightarrow> nat option" where
  "first_match_at [] s = None"
| "first_match_at (a # as) s =
     (case match_alt_at a s of Some n \<Rightarrow> Some n | None \<Rightarrow> first_match_at as s)"

function match_g :: "alt list \<Rightarrow> string \<Rightarrow> string list" where
  "match_g alts s =
     (case first_match_at alts s of
        Some n \<Rightarrow>
          take n s # (if n = 0 then (case s of [] \<Rightarrow> [] | c # t \<Rightarrow> match_g alts t)
                      else match_g alts (drop n s))
      | None \<Rightarrow> (case s of [] \<Rightarrow> [] | c # t \<Rightarrow> match_g alts t))"
  by pat_completeness auto
termination
proof (relation "measure (\<lambda>(alts, s). length s)")
  show "wf (measure (\<lambda>(alts, s). length s))" by simp
next
  fix alts :: "alt list" and s :: string and c t
  assume "s = c # t"
  then show "((alts, t), (alts, s)) \<in> measure (\<lambda>(alts, s). length s)" by simp
next
  fix alts :: "alt list" and s :: string and n
  assume fm: "first_match_at alts s = Some n" and pos: "n \<noteq> 0"
  have pl: "length p \<le> length s" if "prefix_i p s" for p
  proof -
    from that have "length (toLowerCase p) \<le> length (toLowerCase s)"
      unfolding prefix_i_def by (rule prefix_length_le)
    then show ?thesis by (simp add: toLowerCase_def)
  qed
  have one: "n \<le> length s" if "match_alt_at a s = Some n" for a
  proof (cases a)
    case (Lit p)
    with that pl [of p] show ?thesis by (auto split: if_splits)
  next
    case (LitDigits p)
    have "length (takeWhile is_digit (drop (length p) s)) \<le> length s - length p"
      using length_takeWhile_le [of is_digit "drop (length p) s"] by simp
    with LitDigits that pl [of p] show ?thesis
      by (auto simp: Let_def split: if_splits)
  qed
  from fm have "n \<le> length s"
    by (induction alts) (auto split: option.splits dest: one)
  with pos have "length (drop n s) < length s" by simp
  then show "((alts, drop n s), (alts, s)) \<in> measure (\<lambda>(alts, s). length s)" by simp
next
  fix alts :: "alt list" and s :: string and c t
  assume "s = c # t"
  then show "((alts, t), (alts, s)) \<in> measure (\<lambda>(alts, s). length s)" by simp
qed

declare match_g.simps [simp del]

subsection \<open>\<open>validateResponse\<close>\<close>

definition personalExperience_v1 :: "string list" where
  "personalExperience_v1 =
     map ((@) ''I '')
       [''understand what you're going through'', ''know that feeling'', ''remember when'',
        ''felt that way'', ''experienced'', ''can relate'', ''have been through'']"

definition mediaFabrication :: "string list" where
  "mediaFabrication =
     concat (map (\<lambda>v. map (\<lambda>d. ''I '' @ v @ '' '' @ d) [''that'', ''the'', ''this''])
       [''remember'', ''listened to'', ''heard'', ''watched'', ''read'', ''experienced''])"

definition mediaClaims :: "alt list" where
  "mediaClaims =
     [Lit ''the opening track'', Lit ''that lyric'', Lit ''the guitar solo'',
      Lit ''the production'', Lit ''the bridge'', Lit ''the chorus'', LitDigits ''chapter '',
      Lit ''scene where'', Lit ''the protagonist'']"

definition roleConfusion :: "string list" where
  "roleConfusion =
     map ((@) ''as someone who '') [''has'', ''experienced'', ''went through'', ''understands'']"

definition therapeuticOverreach :: "string list" where
  "therapeuticOverreach =
     [''you need to'', ''you should'', ''I diagnose'', ''I recommend therapy'']"

definition validateResponse :: "string \<Rightarrow> string \<Rightarrow> string list" where
  "validateResponse response userMessage =
     (if regex_test_i personalExperience_v1 response
        then [''CRITICAL: AI claiming personal experiences''] else [])
     @ (if regex_test_i mediaFabrication response
        then [''CRITICAL: AI fabricating personal media experiences''] else [])
     @ (let userMentionedMedia = toLowerCase userMessage;
            problematicClaims =
              filter (\<lambda>claim. \<not> str_includes userMentionedMedia (toLowerCase claim))
                (match_g mediaClaims response)
        in if 0 < length problematicClaims
           then [''WARNING: Adding unverified media details''] else [])
     @ (if regex_test_i roleConfusion response
        then [''WARNING: AI role confusion detected''] else [])
     @ (if regex_test_i therapeuticOverreach response
        then [''WARNING: Therapeutic overreach detected''] else [])"

subsection \<open>\<open>validatePsychologyAnalysis\<close> (fine-tuned prompt family)\<close>

definition personalExperience :: "string list" where
  "personalExperience =
     map ((@) ''I '')
       [''have'', ''notice'', ''experience'', ''gravitate'', ''feel'', ''prefer'', ''tend to'',
        ''usually'', ''often'', ''sometimes'', ''find'', ''see'', ''observe'', ''think'',
        ''believe'', ''remember'', ''know from experience'']"

definition analyticalLanguage :: "string list" where
  "analyticalLanguage =
     [''this suggests'', ''this indicates'', ''this pattern'', ''research shows'',
      ''many people'', ''psychological frameworks'', ''personality research'',
      ''cultural psychology'']"

definition frameworks :: "string list" where
  "frameworks =
     [''MBTI'', ''Big Five'', ''attachment'', ''cultural'', ''personality'', ''psychological'',
      ''framework'', ''pattern'', ''style'', ''trait'']"

definition questionCount :: "string \<Rightarrow> nat" where
  "questionCount response = length (filter (\<lambda>c. c = CHR ''?'') response)"

definition validatePsychologyAnalysis :: "string \<Rightarrow> string \<Rightarrow> string list" where
  "validatePsychologyAnalysis response userMessage =
     (if regex_test_i personalExperience response
        then [''CRITICAL: AI claiming personal experiences''] else [])
     @ (if \<not> regex_test_i analyticalLanguage response \<and> 100 < length response
        then [''WARNING: Missing professional psychological analysis language''] else [])
     @ (if \<not> regex_test_i frameworks response \<and> 100 < length response
        then [''WARNING: Missing psychological frameworks''] else [])
     @ (if 400 < length response
        then [''WARNING: Response too long for conversational analysis''] else [])
     @ (if 100 < length response \<and> questionCount response = 0
        then [''WARNING: Missing strategic follow-up question''] else [])"

subsection \<open>\<open>correctAnalysisLanguage\<close>\<close>

definition correctAnalysisLanguage :: "string \<Rightarrow> string" where
  "correctAnalysisLanguage response =
     (replace_gi ''This means'' ''From a psychological perspective, this indicates''
      \<circ> replace_gi ''You are'' ''Your psychological profile suggests you are''
      \<circ> replace_gi ''I've experienced'' ''Many people experience''
      \<circ> replace_gi ''I believe'' ''The pattern indicates''
      \<circ> replace_gi ''I think'' ''This suggests''
      \<circ> replace_gi ''I see'' ''This analysis reveals''
      \<circ> replace_gi ''I find that'' ''Research indicates that''
      \<circ> replace_gi ''I usually'' ''You typically''
      \<circ> replace_gi ''I gravitate towards'' ''You seem drawn to''
      \<circ> replace_gi ''I tend to'' ''You appear to''
      \<circ> replace_gi ''I've noticed that'' ''This suggests that'') response"

section \<open>Quality scorers\<close>

subsection \<open>\<open>assessResponseQuality\<close> (\<open>lib/utils.ts\<close>)\<close>

record quality =
  score :: int
  issues :: "string list"
  suggestions :: "string list"

definition psychTerms :: "string list" where
  "psychTerms = [''pattern'', ''psychological'', ''attachment'', ''emotional'', ''development'']"

definition assessResponseQuality :: "string \<Rightarrow> string \<Rightarrow> quality" where
  "assessResponseQuality response userMessage =
     (let violations = validateResponse response userMessage;
          q0 = \<lparr>score = 100, issues = [], suggestions = []\<rparr>;
          q1 = (if 0 < length violations
                then \<lparr>score = score q0 - int (length violations) * 20,
                      issues = issues q0 @ violations,
                      suggestions = suggestions q0
                        @ [''Maintain professional AI assistant boundaries'']\<rparr>
                else q0);
          hasDepth = list_ex (\<lambda>term. str_includes (toLowerCase response) term) psychTerms;
          q2 = (if \<not> hasDepth \<and> 100 < length response
                then q1\<lparr>score := score q1 - 10,
                        suggestions := suggestions q1
                          @ [''Include more psychological framework references'']\<rparr>
                else q1);
          hasQuestions = str_includes response ''?'';
          q3 = (if \<not> hasQuestions \<and> 50 < length response
                then q2\<lparr>score := score q2 - 5,
                        suggestions := suggestions q2
                          @ [''Consider adding exploratory questions'']\<rparr>
                else q2)
      in q3\<lparr>score := max 0 (score q3)\<rparr>)"

section \<open>Numbers\<close>

text \<open>
  A \<open>number\<close> of the source is an IEEE 754 double, and every arithmetic operation
  returns the double nearest to the exact result, the one with the even significand when
  two are equally near. \<open>to_double x\<close> is that double for a real \<open>x\<close> below
  \<open>2 ^ 1024\<close> in magnitude (beyond it the source has \<open>Infinity\<close>, which the model
  leaves out): with \<open>e\<close> the exponent of \<open>x\<close>, not below \<open>- 1022\<close>, the doubles
  around \<open>x\<close> are the multiples of \<open>2 ^ (e - 52)\<close>. Integers up to \<open>2 ^ 53\<close> are
  doubles, so sums and products of the integer counts and scores of the source are exact
  and are left as they are.
\<close>

fun bit_length :: "nat \<Rightarrow> nat" where
  "bit_length n = (if n = 0 then 0 else Suc (bit_length (n div 2)))"

declare bit_length.simps [simp del]

text \<open>The exponent of a positive real: the \<open>e\<close> with \<open>2 ^ e \<le> x < 2 ^ (e + 1)\<close>.\<close>

definition exponent_of :: "real \<Rightarrow> int" where
  "exponent_of x =
     (if 1 \<le> x then int (bit_length (nat \<lfloor>x\<rfloor>)) - 1
      else - int (bit_length (nat (\<lceil>1 / x\<rceil> - 1))))"

definition round_half_even :: "real \<Rightarrow> int" where
  "round_half_even r =
     (let f = \<lfloor>r\<rfloor>; d = r - real_of_int f
      in if d < 1 / 2 then f else if 1 / 2 < d then f + 1 else if even f then f else f + 1)"

definition pow2 :: "int \<Rightarrow> real" where
  "pow2 e = (if 0 \<le> e then 2 ^ nat e else 1 / 2 ^ nat (- e))"

definition to_double :: "real \<Rightarrow> real" where
  "to_double x =
     (if x = 0 then 0
      else (let e = max (exponent_of \<bar>x\<bar>) (- 1022); ulp = pow2 (e - 52)
            in sgn x * real_of_int (round_half_even (\<bar>x\<bar> / ulp)) * ulp))"

section \<open>Conversation-state store (\<open>lib/store.ts\<close>)\<close>

subsection \<open>Data model\<close>

text \<open>
  The interfaces of the source become records. A \<open>Date\<close> is its number of milliseconds, a
  \<open>File\<close> an opaque handle, an optional field an \<open>option\<close>, a \<open>number\<close> that only counts an
  \<^typ>\<open>int\<close>, and a \<open>number\<close> that may hold a fraction a \<^typ>\<open>real\<close> whose
  arithmetic is rounded by \<open>to_double\<close> (section Numbers). The fields
  \<open>id\<close>, \<open>type\<close> and \<open>file\<close> are called \<open>msg_id\<close>, \<open>session_id\<close>, \<open>session_type\<close> and
  \<open>file_handle\<close>; \<open>analysisType\<close> of a message is \<open>analysisType_of\<close>.
\<close>

datatype role = User | Assistant

datatype depth = Surface | Emerging | Deep | Integration

datatype energy_level = Guarded | Curious | Open | Vulnerable | Excited

datatype communication_style = Direct | Metaphorical | Story_based | Reflective

datatype session_kind = Personality | Creative | Music | Label_insights

datatype insight_category =
  Attachment | Trauma | Creative_psychology | Family_dynamics | Emotional_regulation
  | Identity_formation

record audioAnalysisResult =
  tempo :: "real option"
  key :: "string option"
  mood :: "string option"
  energy :: "real option"
  valence :: "real option"
  genres :: "string list option"
  instruments :: "string list option"
  summary :: "string option"

record audioFile =
  file_handle :: nat
  name :: string
  duration :: "real option"
  url :: string
  analysisResult :: "audioAnalysisResult option"

record message =
  msg_id :: string
  role :: role
  content :: string
  timestamp :: nat
  images :: "string list option"
  audioFiles :: "audioFile list option"
  analysisType_of :: "string option"
  emotionalMarkers :: "string list option"
  psychologicalPatterns :: "string list option"
  validationScore :: "real option"
  boundaryViolations :: "string list option"

record psychologicalInsight =
  category :: insight_category
  confidence_level :: real
  supporting_evidence :: "string list"
  connections_to_creativity :: "string list"
  follow_up_areas :: "string list"
  session_context :: string
  psychological_framework :: string
  accuracy_verified :: bool

record conversationState =
  psychological_safety_level :: real
  topics_explored :: "string list"
  emotional_patterns_observed :: "string list"
  trauma_indicators :: "string list"
  attachment_patterns :: "string list"
  creative_psychology_insights :: "psychologicalInsight list"
  readiness_for_depth :: depth
  user_energy_level :: energy_level
  preferred_communication_style :: communication_style
  conversation_flow_notes :: "string list"
  boundary_violations_count :: int
  response_quality_average :: real
  last_validation_score :: real

record psychologicalProfile =
  formativeExperiences :: "string list"
  coreWounds :: "string list"
  attachmentStyle :: string
  creativePsychology :: "string list"
  industryInsights :: "string list"
  growthAreas :: "string list"
  developmentalThemes :: "string list"

record analysisSession =
  session_id :: string
  title :: string
  messages :: "message list"
  createdAt :: nat
  updatedAt :: nat
  session_type :: session_kind
  conversationState :: conversationState
  psychologicalProfile :: "psychologicalProfile option"

record appState =
  currentSession :: "analysisSession option"
  sessions :: "analysisSession list"
  isGenerating :: bool
  sidebarOpen :: bool
  analysisType :: string
  inputText :: string
  selectedImages :: "nat list"
  currentConversationDepth :: depth
  lastUserEmotionalState :: string
  suggestedFollowUps :: "string list"
  systemHealthScore :: real
  totalBoundaryViolations :: int

definition createDefaultConversationState :: conversationState where
  "createDefaultConversationState =
     \<lparr>psychological_safety_level = 5, topics_explored = [], emotional_patterns_observed = [],
      trauma_indicators = [], attachment_patterns = [], creative_psychology_insights = [],
      readiness_for_depth = Surface, user_energy_level = Curious,
      preferred_communication_style = Reflective, conversation_flow_notes = [],
      boundary_violations_count = 0, response_quality_average = 100,
      last_validation_score = 100\<rparr>"

definition initialState :: appState where
  "initialState =
     \<lparr>currentSession = None, sessions = [], isGenerating = False, sidebarOpen = True,
      analysisType = ''personality'', inputText = [], selectedImages = [],
      currentConversationDepth = Surface, lastUserEmotionalState = ''neutral'',
      suggestedFollowUps = [], systemHealthScore = 100, totalBoundaryViolations = 0\<rparr>"

subsection \<open>Pattern extractors and the message-level scorer\<close>

text \<open>\<open>[...new Set(found)]\<close> keeps the first occurrence of every element, in order.\<close>

fun dedupe :: "'a list \<Rightarrow> 'a list" where
  "dedupe [] = []"
| "dedupe (x # xs) = x # dedupe (filter (\<lambda>y. y \<noteq> x) xs)"

definition emotionalWords :: "string list" where
  "emotionalWords =
     [''anxious'', ''scared'', ''excited'', ''overwhelmed'', ''peaceful'', ''frustrated'',
      ''lonely'', ''connected'', ''vulnerable'', ''safe'', ''trapped'', ''free'',
      ''angry'', ''sad'', ''joyful'', ''numb'', ''intense'', ''calm'', ''hopeful'',
      ''devastated'', ''conflicted'', ''empowered'', ''lost'', ''grounded'']"

definition extractEmotionalMarkers :: "string \<Rightarrow> string list" where
  "extractEmotionalMarkers text_in =
     dedupe (filter (\<lambda>word. str_includes (toLowerCase text_in) word) emotionalWords)"

definition patterns :: "string list" where
  "patterns =
     [''childhood'', ''family'', ''parents'', ''trauma'', ''anxiety'', ''fear'',
      ''control'', ''safety'', ''validation'', ''creativity'', ''expression'',
      ''vulnerability'', ''attachment'', ''abandonment'', ''criticism'', ''perfectionism'',
      ''identity'', ''healing'', ''growth'', ''development'', ''relationship'',
      ''emotional regulation'', ''self-worth'', ''boundaries'', ''trust'']"

definition extractPsychologicalPatterns :: "string \<Rightarrow> string list" where
  "extractPsychologicalPatterns text_in =
     dedupe (filter (\<lambda>pattern. str_includes (toLowerCase text_in) pattern) patterns)"

text \<open>
  An absent optional list is falsy in \<open>xs && xs.length > n\<close>; \<open>opt_longer n xs\<close> is that test.
\<close>

definition opt_longer :: "nat \<Rightarrow> 'a list option \<Rightarrow> bool" where
  "opt_longer n xs = (case xs of None \<Rightarrow> False | Some l \<Rightarrow> n < length l)"

definition calculateResponseQuality :: "message \<Rightarrow> int" where
  "calculateResponseQuality m =
     (let score0 = 100;
          score1 = (case boundaryViolations m of
                      None \<Rightarrow> score0
                    | Some vs \<Rightarrow> if 0 < length vs then score0 - int (length vs) * 15 else score0);
          score2 = (if opt_longer 2 (psychologicalPatterns m) then score1 + 5 else score1);
          score3 = (if opt_longer 0 (emotionalMarkers m) then score2 + 5 else score2)
      in max 0 (min 100 score3))"

subsection \<open>Store operations\<close>

text \<open>
  Every action takes the store state and returns the new one. What the source reads from
  the environment is an argument: the generated identifier, and one clock reading for every
  \<open>new Date()\<close>. Writing the session collection to local storage does not change the
  store and is left out.
\<close>

definition analysisTypeNames :: "session_kind \<Rightarrow> string" where
  "analysisTypeNames k =
     (case k of Personality \<Rightarrow> ''Personality Profile'' | Creative \<Rightarrow> ''Creative Assessment''
      | Music \<Rightarrow> ''Music Psychology'' | Label_insights \<Rightarrow> ''Industry Insights'')"

definition createNewSession :: "session_kind \<Rightarrow> string \<Rightarrow> nat \<Rightarrow> nat \<Rightarrow> appState \<Rightarrow> appState" where
  "createNewSession k new_id now_created now_updated st =
     (let newSession =
            \<lparr>session_id = new_id, title = analysisTypeNames k, messages = [],
             createdAt = now_created, updatedAt = now_updated, session_type = k,
             conversationState = createDefaultConversationState,
             psychologicalProfile = None\<rparr>
      in st\<lparr>sessions := newSession # sessions st, currentSession := Some newSession,
            inputText := [], selectedImages := [], currentConversationDepth := Surface,
            suggestedFollowUps := []\<rparr>)"

definition userMessages :: "message list \<Rightarrow> message list" where
  "userMessages ms = filter (\<lambda>m. role m = User) ms"

definition setCurrentSession :: "analysisSession option \<Rightarrow> appState \<Rightarrow> appState" where
  "setCurrentSession session st =
     (let assessDepth =
            (case session of
               None \<Rightarrow> Surface
             | Some s \<Rightarrow>
                 (let messageCount = length (messages s);
                      hasDeepContent =
                        list_ex (\<lambda>m. opt_longer 2 (psychologicalPatterns m)
                                      \<or> opt_longer 1 (emotionalMarkers m))
                          (userMessages (messages s))
                  in if messageCount < 4 then Surface
                     else if messageCount < 8 \<and> \<not> hasDeepContent then Emerging
                     else if messageCount < 15 \<or> \<not> hasDeepContent then Deep
                     else Integration))
      in st\<lparr>currentSession := session, currentConversationDepth := assessDepth\<rparr>)"

definition hasEmotionalContent :: "message list \<Rightarrow> bool" where
  "hasEmotionalContent ms =
     list_ex (\<lambda>msg. opt_longer 0 (emotionalMarkers msg)) (userMessages ms)"

definition hasPsychologicalContent :: "message list \<Rightarrow> bool" where
  "hasPsychologicalContent ms =
     list_ex (\<lambda>msg. opt_longer 2 (psychologicalPatterns msg)) (userMessages ms)"

definition hasDeepExploration :: "message list \<Rightarrow> bool" where
  "hasDeepExploration ms =
     list_ex (\<lambda>msg. 200 < length (content msg)
                \<and> (str_includes (toLowerCase (content msg)) ''childhood''
                   \<or> str_includes (toLowerCase (content msg)) ''trauma''
                   \<or> str_includes (toLowerCase (content msg)) ''family''
                   \<or> str_includes (toLowerCase (content msg)) ''relationship''))
       (userMessages ms)"

text \<open>
  \<open>assessConversationDepth\<close> returns the label and stores it in
  \<open>currentConversationDepth\<close>; without an active session it returns \<open>surface\<close> and stores
  nothing.
\<close>

definition assessConversationDepth :: "appState \<Rightarrow> depth \<times> appState" where
  "assessConversationDepth st =
     (case currentSession st of
        None \<Rightarrow> (Surface, st)
      | Some cs \<Rightarrow>
          (let messageCount = length (messages cs);
               d = (if messageCount < 4 then Surface
                    else if messageCount < 8
                            \<or> (\<not> hasEmotionalContent (messages cs)
                               \<and> \<not> hasPsychologicalContent (messages cs))
                      then Emerging
                    else if messageCount < 15 \<or> \<not> hasDeepExploration (messages cs) then Deep
                    else Integration)
           in (d, st\<lparr>currentConversationDepth := d\<rparr>)))"

definition generateConversationSuggestions :: "appState \<Rightarrow> appState" where
  "generateConversationSuggestions st =
     (case currentSession st of
        None \<Rightarrow> st
      | Some cs \<Rightarrow>
          (let us = userMessages (messages cs);
               suggestions =
                 (if us = [] then []
                  else
                    (let lastUserMessage = last us;
                         pats = (case psychologicalPatterns lastUserMessage of
                                   None \<Rightarrow> [] | Some l \<Rightarrow> l);
                         emotions = (case emotionalMarkers lastUserMessage of
                                       None \<Rightarrow> [] | Some l \<Rightarrow> l)
                     in case currentConversationDepth st of
                          Surface \<Rightarrow>
                            [''What draws you to explore that particular aspect of yourself?'',
                             ''How does that creative process feel psychologically for you?'']
                        | Emerging \<Rightarrow>
                            (if ''childhood'' \<in> set pats
                             then [''What early experiences shaped that pattern for you?'']
                             else [])
                            @ (if 0 < length emotions
                               then [''When do you first remember feeling that way?''] else [])
                        | Deep \<Rightarrow>
                            [''How has working through this changed your relationship with yourself?'',
                             ''What would it look like to integrate this understanding into your daily life?'']
                        | Integration \<Rightarrow>
                            [''What wisdom would you share with someone experiencing something similar?'',
                             ''How do you want to continue growing in this area?'']))
           in st\<lparr>suggestedFollowUps := suggestions\<rparr>))"

definition updateSystemHealth :: "appState \<Rightarrow> appState" where
  "updateSystemHealth st =
     (let totalMessages = sum_list (map (\<lambda>session. length (messages session)) (sessions st));
          violationRate =
            (if 0 < totalMessages
             then to_double
                    (to_double (real_of_int (totalBoundaryViolations st) / real totalMessages)
                     * 100)
             else 0);
          health = max 0 (min 100 (to_double (100 - to_double (violationRate * 10))))
      in st\<lparr>systemHealthScore := health\<rparr>)"

text \<open>
  \<open>addMessage\<close>: the caller's object is spread first and the identifier, the timestamp
  and the four derived fields are written over it.
\<close>

definition addMessage :: "message \<Rightarrow> string \<Rightarrow> nat \<Rightarrow> nat \<Rightarrow> appState \<Rightarrow> appState" where
  "addMessage m new_id now_msg now_updated st =
     (let newMessage =
            m\<lparr>msg_id := new_id, timestamp := now_msg,
              emotionalMarkers := Some (extractEmotionalMarkers (content m)),
              psychologicalPatterns := Some (extractPsychologicalPatterns (content m)),
              validationScore := (if role m = User then None else Some 100),
              boundaryViolations := Some []\<rparr>;
          st1 =
            (case currentSession st of
               None \<Rightarrow> st
             | Some cs \<Rightarrow>
                 (let isFirstUserMessage = (length (messages cs) = 0 \<and> role m = User);
                      updatedSession =
                        cs\<lparr>messages := messages cs @ [newMessage], updatedAt := now_updated,
                           title := (if isFirstUserMessage
                                     then take 60 (content m)
                                          @ (if 60 < length (content m) then ''...'' else [])
                                     else title cs)\<rparr>;
                      updatedSessions =
                        map (\<lambda>session. if session_id session = session_id updatedSession
                                        then updatedSession else session) (sessions st)
                  in st\<lparr>currentSession := Some updatedSession, sessions := updatedSessions\<rparr>));
          st2 = (if role m = User
                 then generateConversationSuggestions (snd (assessConversationDepth st1))
                 else st1)
      in st2)"

text \<open>
  \<open>updateLastMessage\<close> with its three arguments given; a caller that leaves the last two
  out passes \<open>100\<close> and \<open>[]\<close>.
\<close>

definition updateLastMessage :: "string \<Rightarrow> real \<Rightarrow> string list \<Rightarrow> nat \<Rightarrow> appState \<Rightarrow> appState" where
  "updateLastMessage new_content score_in violations now_updated st =
     (let st1 =
            (case currentSession st of
               None \<Rightarrow> st
             | Some cs \<Rightarrow>
                 if length (messages cs) = 0 then st
                 else
                   (let lastMessage = last (messages cs)
                    in if role lastMessage = Assistant then
                         (let emotional = extractEmotionalMarkers new_content;
                              psychological = extractPsychologicalPatterns new_content;
                              qualityScore =
                                calculateResponseQuality
                                  (lastMessage\<lparr>content := new_content,
                                     boundaryViolations := Some violations,
                                     emotionalMarkers := Some emotional,
                                     psychologicalPatterns := Some psychological\<rparr>);
                              msgs =
                                butlast (messages cs)
                                @ [lastMessage\<lparr>content := new_content,
                                     psychologicalPatterns := Some psychological,
                                     emotionalMarkers := Some emotional,
                                     validationScore := Some score_in,
                                     boundaryViolations := Some violations\<rparr>];
                              updatedConversationState =
                                (conversationState cs)
                                  \<lparr>last_validation_score := score_in,
                                   boundary_violations_count :=
                                     boundary_violations_count (conversationState cs)
                                     + int (length violations),
                                   response_quality_average :=
                                     to_double
                                       (to_double
                                          (response_quality_average (conversationState cs)
                                           + real_of_int qualityScore) / 2)\<rparr>;
                              updatedSession =
                                cs\<lparr>messages := msgs,
                                   conversationState := updatedConversationState,
                                   updatedAt := now_updated\<rparr>;
                              updatedSessions =
                                map (\<lambda>session. if session_id session = session_id updatedSession
                                                then updatedSession else session) (sessions st)
                          in st\<lparr>currentSession := Some updatedSession,
                                sessions := updatedSessions,
                                totalBoundaryViolations :=
                                  totalBoundaryViolations st + int (length violations)\<rparr>)
                       else st))
      in updateSystemHealth st1)"

definition deleteSession :: "string \<Rightarrow> appState \<Rightarrow> appState" where
  "deleteSession sessionId st =
     (let filteredSessions = filter (\<lambda>s. session_id s \<noteq> sessionId) (sessions st);
          cur = (if map_option session_id (currentSession st) = Some sessionId
                 then (case filteredSessions of [] \<Rightarrow> None | s # _ \<Rightarrow> Some s)
                 else currentSession st)
      in st\<lparr>sessions := filteredSessions, currentSession := cur\<rparr>)"

text \<open>
  \<open>updateConversationState\<close> merges a partial record into the conversation state of the
  active session; the partial record is the function that writes its fields.
\<close>

definition updateConversationState ::
  "(conversationState \<Rightarrow> conversationState) \<Rightarrow> appState \<Rightarrow> appState" where
  "updateConversationState updates st =
     (case currentSession st of
        None \<Rightarrow> st
      | Some cs \<Rightarrow>
          (let updatedSession = cs\<lparr>conversationState := updates (conversationState cs)\<rparr>;
               updatedSessions =
                 map (\<lambda>session. if session_id session = session_id updatedSession
                                 then updatedSession else session) (sessions st)
           in st\<lparr>currentSession := Some updatedSession, sessions := updatedSessions\<rparr>))"

definition recordBoundaryViolation :: "string \<Rightarrow> appState \<Rightarrow> appState" where
  "recordBoundaryViolation violation st =
     (let st1 = st\<lparr>totalBoundaryViolations := totalBoundaryViolations st + 1\<rparr>;
          n = (case currentSession st1 of
                 None \<Rightarrow> 0
               | Some cs \<Rightarrow> boundary_violations_count (conversationState cs)) + 1;
          st2 = updateConversationState (\<lambda>c. c\<lparr>boundary_violations_count := n\<rparr>) st1
      in updateSystemHealth st2)"

subsection \<open>The earlier store variant\<close>

text \<open>
  The second store of \<open>lib/store.ts\<close> has sessions and messages without the derived
  fields. Its \<open>updateLastMessage\<close> is given on the same records: it touches only fields
  both variants have, and the spread copies the others.
\<close>

definition updateLastMessage_v2 :: "string \<Rightarrow> nat \<Rightarrow> appState \<Rightarrow> appState" where
  "updateLastMessage_v2 new_content now_updated st =
     (case currentSession st of
        None \<Rightarrow> st
      | Some cs \<Rightarrow>
          if length (messages cs) = 0 then st
          else
            (let lastMessage = last (messages cs);
                 msgs = (if role lastMessage = Assistant
                         then butlast (messages cs) @ [lastMessage\<lparr>content := new_content\<rparr>]
                         else messages cs);
                 updatedSession = cs\<lparr>messages := msgs, updatedAt := now_updated\<rparr>;
                 updatedSessions =
                   map (\<lambda>session. if session_id session = session_id updatedSession
                                   then updatedSession else session) (sessions st)
             in st\<lparr>currentSession := Some updatedSession, sessions := updatedSessions\<rparr>))"

section \<open>Chat orchestrator (\<open>components/chat.tsx\<close>)\<close>

text \<open>
  \<open>validateAnalysisResponse\<close> screens the model's reply, writes a corrected reply or a
  safe redirect over the last message, and tells \<open>sendMessage\<close> whether the reply passed.
  \<open>sendMessage\<close> then stores the reply itself when it passed and the quality record of
  the component is absent or scores at least 90; \<open>on_model_reply\<close> is that part of
  \<open>sendMessage\<close>. The quality record and the toasts are state of the component, not of the
  store.
\<close>

definition validateAnalysisResponse :: "string \<Rightarrow> string \<Rightarrow> nat \<Rightarrow> appState \<Rightarrow> bool \<times> appState" where
  "validateAnalysisResponse response userMessage now st =
     (let violations = validatePsychologyAnalysis response userMessage;
          criticalViolations = filter (\<lambda>v. str_includes v ''CRITICAL'') violations
      in if 0 < length criticalViolations then
           (let correctedResponse = correctAnalysisLanguage response;
                stillViolating =
                  filter (\<lambda>v. str_includes v ''CRITICAL'')
                    (validatePsychologyAnalysis correctedResponse userMessage)
            in if 0 < length stillViolating then
                 (let safeResponse = createSafeAnalysisResponse userMessage violations
                  in (False, updateLastMessage safeResponse 100 [] now st))
               else (True, updateLastMessage correctedResponse 100 [] now st))
         else if 0 < length violations then
           (True, updateLastMessage (correctAnalysisLanguage response) 100 [] now st)
         else (True, st))"

definition on_model_reply ::
  "int option \<Rightarrow> string \<Rightarrow> string \<Rightarrow> nat \<Rightarrow> nat \<Rightarrow> appState \<Rightarrow> appState" where
  "on_model_reply lastResponseQuality aiResponse contentToSend now1 now2 st =
     (case validateAnalysisResponse aiResponse contentToSend now1 st of
        (passed, st1) \<Rightarrow>
          if passed then
            (if (case lastResponseQuality of None \<Rightarrow> True | Some sc \<Rightarrow> 90 \<le> sc)
             then updateLastMessage aiResponse 100 [] now2 st1 else st1)
          else st1)"

text \<open>The object \<open>{role, content}\<close> that \<open>sendMessage\<close> hands to \<open>addMessage\<close>.\<close>

definition plain_message :: "role \<Rightarrow> string \<Rightarrow> message" where
  "plain_message r c =
     \<lparr>msg_id = [], role = r, content = c, timestamp = 0, images = None, audioFiles = None,
      analysisType_of = None, emotionalMarkers = None, psychologicalPatterns = None,
      validationScore = None, boundaryViolations = None\<rparr>"

section \<open>Vocabulary of the properties\<close>

text \<open>
  The definitions of this section belong to the statements, not to the program.
  \<open>critical vs\<close>: some label of \<open>vs\<close> starts with \<open>CRITICAL:\<close>. \<open>mentions m ws\<close>: the
  lower-cased message contains one of the words.
\<close>

definition critical :: "string list \<Rightarrow> bool" where
  "critical vs = list_ex (prefix ''CRITICAL:'') vs"

definition mentions :: "string \<Rightarrow> string list \<Rightarrow> bool" where
  "mentions userMessage ws = list_ex (\<lambda>w. str_includes (toLowerCase userMessage) w) ws"

text \<open>
  Two texts are compatible when one is a prefix of the other. A pattern and a needle do
  not overlap when no occurrence of the pattern can share a position with an occurrence of
  the needle: the pattern is compatible with no suffix of the needle, and no proper suffix
  of the pattern is compatible with the needle.
\<close>

definition compat :: "string \<Rightarrow> string \<Rightarrow> bool" where
  "compat x y = (prefix x y \<or> prefix y x)"

definition no_overlap :: "string \<Rightarrow> string \<Rightarrow> bool" where
  "no_overlap pat n =
     (pat \<noteq> []
      \<and> list_all (\<lambda>j. \<not> compat (toLowerCase pat) (drop j n)) [0..<length n]
      \<and> list_all (\<lambda>k. \<not> compat (drop k (toLowerCase pat)) n) [1..<length pat])"

text \<open>The patterns that \<open>correctAnalysisLanguage\<close> replaces.\<close>

definition correction_patterns :: "string list" where
  "correction_patterns =
     [''I've noticed that'', ''I tend to'', ''I gravitate towards'', ''I usually'',
      ''I find that'', ''I see'', ''I think'', ''I believe'', ''I've experienced'',
      ''You are'', ''This means'']"

text \<open>
  The scores as the specification words them, to be compared with the functions of the
  source; \<open>opt_count\<close> counts an absent list as empty.
\<close>

definition opt_count :: "'a list option \<Rightarrow> nat" where
  "opt_count xs = (case xs of None \<Rightarrow> 0 | Some l \<Rightarrow> length l)"

definition clamp :: "int \<Rightarrow> int \<Rightarrow> int \<Rightarrow> int" where
  "clamp x lo hi = max lo (min hi x)"

definition spec_message_score :: "message \<Rightarrow> int" where
  "spec_message_score m =
     clamp (100 - 15 * int (opt_count (boundaryViolations m))
            + (if 2 < opt_count (psychologicalPatterns m) then 5 else 0)
            + (if 0 < opt_count (emotionalMarkers m) then 5 else 0)) 0 100"

definition spec_response_score :: "string \<Rightarrow> string \<Rightarrow> int" where
  "spec_response_score response userMessage =
     clamp (100 - 20 * int (length (validateResponse response userMessage))
            - (if \<not> mentions response psychTerms \<and> 100 < length response then 10 else 0)
            - (if \<not> str_includes response ''?'' \<and> 50 < length response then 5 else 0)) 0 100"

text \<open>
  The depth label in two wordings. \<open>claimed_depth\<close> follows the specification: the
  second gate asks whether the messages lack both emotional-marker and
  psychological-pattern content. \<open>amended_depth\<close> states that gate as the code decides
  it: no user message has an emotional marker recorded, and no user message has more than
  two psychological patterns recorded. The third gate is the same in both.
\<close>

definition claimed_lacks_content :: "message list \<Rightarrow> bool" where
  "claimed_lacks_content ms =
     (\<not> list_ex (\<lambda>m. 0 < opt_count (emotionalMarkers m)) ms
      \<and> \<not> list_ex (\<lambda>m. 0 < opt_count (psychologicalPatterns m)) ms)"

definition amended_lacks_content :: "message list \<Rightarrow> bool" where
  "amended_lacks_content ms =
     (\<not> list_ex (\<lambda>m. role m = User \<and> 0 < opt_count (emotionalMarkers m)) ms
      \<and> \<not> list_ex (\<lambda>m. role m = User \<and> 2 < opt_count (psychologicalPatterns m)) ms)"

definition spec_deep_exploration :: "message list \<Rightarrow> bool" where
  "spec_deep_exploration ms =
     list_ex (\<lambda>m. role m = User \<and> 200 < length (content m)
                \<and> mentions (content m) [''childhood'', ''trauma'', ''family'', ''relationship''])
       ms"

definition amended_depth :: "message list \<Rightarrow> depth" where
  "amended_depth ms =
     (if length ms < 4 then Surface
      else if length ms < 8 \<or> amended_lacks_content ms then Emerging
      else if length ms < 15 \<or> \<not> spec_deep_exploration ms then Deep
      else Integration)"

definition claimed_depth :: "message list \<Rightarrow> depth" where
  "claimed_depth ms =
     (if length ms < 4 then Surface
      else if length ms < 8 \<or> claimed_lacks_content ms then Emerging
      else if length ms < 15 \<or> \<not> spec_deep_exploration ms then Deep
      else Integration)"

fun depth_rank :: "depth \<Rightarrow> nat" where
  "depth_rank Surface = 0"
| "depth_rank Emerging = 1"
| "depth_rank Deep = 2"
| "depth_rank Integration = 3"

text \<open>States and messages used as examples.\<close>

definition with_messages :: "message list \<Rightarrow> appState" where
  "with_messages ms =
     initialState
       \<lparr>currentSession :=
          Some \<lparr>session_id = ''s'', title = ''t'', messages = ms, createdAt = 0, updatedAt = 0,
                session_type = Music, conversationState = createDefaultConversationState,
                psychologicalProfile = None\<rparr>\<rparr>"

definition sad_message :: message where
  "sad_message = (plain_message User ''I feel sad'')\<lparr>emotionalMarkers := Some [''sad'']\<rparr>"

definition deep_message :: message where
  "deep_message =
     (plain_message User (replicate 201 (CHR ''a'') @ ''my Childhood''))
       \<lparr>emotionalMarkers := Some [''sad'']\<rparr>"

text \<open>
  Two stores made by \<open>createNewSession\<close> and eight calls of \<open>addMessage\<close>: eight
  user messages that name two psychological patterns each, and four short user messages
  in turn with four assistant messages that name emotions.
\<close>

definition add_all :: "(message \<times> string) list \<Rightarrow> appState \<Rightarrow> appState" where
  "add_all xs st = fold (\<lambda>(m, i). addMessage m i 2 2) xs st"

definition family_state :: appState where
  "family_state =
     add_all
       (map (Pair (plain_message User ''my childhood and family''))
          [''m1'', ''m2'', ''m3'', ''m4'', ''m5'', ''m6'', ''m7'', ''m8''])
       (createNewSession Music ''s1'' 1 1 initialState)"

definition mixed_state :: appState where
  "mixed_state =
     add_all
       [(plain_message User ''ok'', ''m1''),
        (plain_message Assistant ''That sounds sad and lonely'', ''m2''),
        (plain_message User ''ok'', ''m3''),
        (plain_message Assistant ''That sounds sad and lonely'', ''m4''),
        (plain_message User ''ok'', ''m5''),
        (plain_message Assistant ''That sounds sad and lonely'', ''m6''),
        (plain_message User ''ok'', ''m7''),
        (plain_message Assistant ''That sounds sad and lonely'', ''m8'')]
       (createNewSession Music ''s1'' 1 1 initialState)"

text \<open>The message that \<open>addMessage\<close> builds from the caller's object.\<close>

definition appended :: "message \<Rightarrow> string \<Rightarrow> nat \<Rightarrow> message" where
  "appended m new_id now_msg =
     m\<lparr>msg_id := new_id, timestamp := now_msg,
       emotionalMarkers := Some (extractEmotionalMarkers (content m)),
       psychologicalPatterns := Some (extractPsychologicalPatterns (content m)),
       validationScore := (if role m = User then None else Some 100),
       boundaryViolations := Some []\<rparr>"

definition fresh_session :: analysisSession where
  "fresh_session =
     \<lparr>session_id = ''s1'', title = ''Music Psychology'', messages = [], createdAt = 1,
      updatedAt = 1, session_type = Music, conversationState = createDefaultConversationState,
      psychologicalProfile = None\<rparr>"

definition stale_health_state :: appState where
  "stale_health_state =
     addMessage (plain_message User ''hi'') ''m1'' 2 2
       (createNewSession Music ''s1'' 1 1 (recordBoundaryViolation ''v'' initialState))"

definition one_reply_state :: appState where
  "one_reply_state =
     addMessage (plain_message Assistant []) ''m1'' 2 2
       (createNewSession Music ''s1'' 1 1 initialState)"

definition one_question_state :: appState where
  "one_question_state =
     addMessage (plain_message User ''hi'') ''m1'' 2 2
       (createNewSession Music ''s1'' 1 1 initialState)"

definition hi_session :: analysisSession where
  "hi_session =
     fresh_session
       \<lparr>messages := [appended (plain_message User ''hi'') ''m1'' 2], updatedAt := 2,
        title := ''hi''\<rparr>"

definition surface_suggestions :: "string list" where
  "surface_suggestions =
     [''What draws you to explore that particular aspect of yourself?'',
      ''How does that creative process feel psychologically for you?'']"

text \<open>
  \<open>is_double x\<close>: the real \<open>x\<close> is a double. \<open>blend a q\<close> is \<open>(a + q) / 2\<close> as the
  source computes it. \<open>late_blend_state\<close> is the store after a session is created, an
  assistant message is appended and its content is rewritten 46 times (\<open>updates_46\<close>),
  with one violation and with none in turn; \<open>ok_score vs\<close> is the quality score of such
  a rewriting.
\<close>

definition is_double :: "real \<Rightarrow> bool" where
  "is_double x = (to_double x = x)"

definition blend :: "real \<Rightarrow> real \<Rightarrow> real" where
  "blend a q = to_double (to_double (a + q) / 2)"

definition ok_score :: "string list \<Rightarrow> real" where
  "ok_score vs = real_of_int (clamp (100 - 15 * int (length vs)) 0 100)"

definition updates_2 :: "string list list" where
  "updates_2 = [[''v''], []]"

definition updates_46 :: "string list list" where
  "updates_46 =
     (let u4 = updates_2 @ updates_2; u8 = u4 @ u4; u32 = (u8 @ u8) @ (u8 @ u8)
      in u32 @ u8 @ u4 @ updates_2)"

definition late_blend_state :: appState where
  "late_blend_state =
     fold (\<lambda>vs. updateLastMessage ''ok'' 100 vs 3) updates_46 one_reply_state"

text \<open>
  The five mutating operations as values, the invariant of the store, and what an
  operation needs: a fresh identifier for a new session, clock readings that lie between
  the clock before and the clock after, and for \<open>setCurrentSession\<close> an argument that is
  \<open>null\<close> or a session of the collection. \<open>stamps_mono\<close> says that no session of the
  collection has an earlier \<open>updatedAt\<close> afterwards.
\<close>

datatype store_op =
    CreateNewSession session_kind string nat nat
  | SetCurrentSession "analysisSession option"
  | AddMessage message string nat nat
  | UpdateLastMessage string real "string list" nat
  | DeleteSession string

fun apply_op :: "store_op \<Rightarrow> appState \<Rightarrow> appState" where
  "apply_op (CreateNewSession k new_id t1 t2) st = createNewSession k new_id t1 t2 st"
| "apply_op (SetCurrentSession s) st = setCurrentSession s st"
| "apply_op (AddMessage m new_id t1 t2) st = addMessage m new_id t1 t2 st"
| "apply_op (UpdateLastMessage c sc vs t) st = updateLastMessage c sc vs t st"
| "apply_op (DeleteSession i) st = deleteSession i st"

definition session_ids :: "appState \<Rightarrow> string list" where
  "session_ids st = map session_id (sessions st)"

definition active_member :: "appState \<Rightarrow> bool" where
  "active_member st =
     (case currentSession st of None \<Rightarrow> True | Some cs \<Rightarrow> session_id cs \<in> set (session_ids st))"

definition stamps_ok :: "nat \<Rightarrow> analysisSession \<Rightarrow> bool" where
  "stamps_ok now s = (createdAt s \<le> updatedAt s \<and> updatedAt s \<le> now)"

definition store_inv :: "nat \<Rightarrow> appState \<Rightarrow> bool" where
  "store_inv now st =
     (distinct (session_ids st) \<and> active_member st \<and> list_all (stamps_ok now) (sessions st)
      \<and> (case currentSession st of None \<Rightarrow> True | Some cs \<Rightarrow> stamps_ok now cs))"

definition stamps_mono :: "appState \<Rightarrow> appState \<Rightarrow> bool" where
  "stamps_mono st st' =
     list_all (\<lambda>s. list_all (\<lambda>s'. if session_id s' = session_id s
                                    then updatedAt s \<le> updatedAt s' else True)
                      (sessions st'))
       (sessions st)"

fun op_ok :: "nat \<Rightarrow> nat \<Rightarrow> appState \<Rightarrow> store_op \<Rightarrow> bool" where
  "op_ok now now' st (CreateNewSession k new_id t1 t2) =
     (new_id \<notin> set (session_ids st) \<and> now \<le> t1 \<and> t1 \<le> t2 \<and> t2 \<le> now')"
| "op_ok now now' st (SetCurrentSession None) = (now \<le> now')"
| "op_ok now now' st (SetCurrentSession (Some s)) = (s \<in> set (sessions st) \<and> now \<le> now')"
| "op_ok now now' st (AddMessage m new_id t1 t2) = (now \<le> t2 \<and> t2 \<le> now')"
| "op_ok now now' st (UpdateLastMessage c sc vs t) = (now \<le> t \<and> t \<le> now')"
| "op_ok now now' st (DeleteSession i) = (now \<le> now')"

text \<open>The user message of the music scenario.\<close>

definition summer_message :: string where
  "summer_message = ''I love this song, it reminds me of summer,''"

section \<open>Verification\<close>

subsection \<open>Numbers\<close>

lemmas fl_eval =
  to_double_def exponent_of_def round_half_even_def pow2_def bit_length.simps Let_def

lemma to_double_examples:
  "to_double (1 / 10) = 3602879701896397 / 2 ^ 55"
  "to_double (- 3 / 10) = - 5404319552844595 / 2 ^ 54"
  by (simp_all add: fl_eval)

lemma to_double_values:
  "to_double 0 = 0" "to_double 1 = 1" "to_double 100 = 100" "to_double 1000 = 1000"
  "to_double (- 900) = - 900" "to_double 170 = 170" "to_double 85 = 85"
  by (simp_all add: fl_eval)

subsection \<open>Strings\<close>

text \<open>Lower-casing a character whose bits are given, for evaluating the functions.\<close>

lemma lower_char_Char:
  "lower_char (Char b0 b1 b2 b3 b4 b5 b6 b7) =
     Char b0 b1 b2 b3 b4
       (b5 \<or> (b6 \<and> (if b7 then \<not> (b0 \<and> b1 \<and> b2 \<and> b4)
                      else (b0 \<or> b1 \<or> b2 \<or> b3 \<or> b4) \<and> \<not> (b4 \<and> b3 \<and> (b2 \<or> (b1 \<and> b0))))))
       b6 b7"
  by (cases b0; cases b1; cases b2; cases b3; cases b4; cases b5; cases b6; cases b7;
      simp add: lower_char_def is_upper_def)

lemmas str_eval = toLowerCase_def lower_char_Char str_includes_def sublist_code

lemmas redirect_defs =
  music_influence_def creative_inspiration_def formative_experience_def
  emotional_connection_def psychological_significance_def identity_formation_redirect_def
  attachment_pattern_def trauma_processing_def

lemmas safe_redirect_defs =
  cultural_analysis_def personality_insight_def creative_psychology_def musical_analysis_def
  collaboration_patterns_def identity_formation_def attachment_exploration_def
  cultural_expression_def

lemma lower_char_plus32: "is_upper c \<Longrightarrow> (of_char (lower_char c) :: nat) = of_char c + 32"
proof (cases c)
  case (Char b0 b1 b2 b3 b4 b5 b6 b7)
  assume "is_upper c"
  with Char show ?thesis
    by (cases b0; cases b1; cases b2; cases b3; cases b4; cases b5; cases b6; cases b7;
        simp add: lower_char_def is_upper_def)
qed

lemma toLowerCase_append: "toLowerCase (a @ b) = toLowerCase a @ toLowerCase b"
  by (simp add: toLowerCase_def)

lemma toLowerCase_drop: "toLowerCase (drop k s) = drop k (toLowerCase s)"
  by (simp add: toLowerCase_def drop_map)

lemma length_toLowerCase [simp]: "length (toLowerCase s) = length s"
  by (simp add: toLowerCase_def)

lemma str_includes_toLowerCase:
  "str_includes s p \<Longrightarrow> str_includes (toLowerCase s) (toLowerCase p)"
  unfolding str_includes_def toLowerCase_def by (rule map_mono_sublist)

lemma str_includes_append_left: "str_includes s (a @ b) \<Longrightarrow> str_includes s a"
  unfolding str_includes_def sublist_def by auto

lemma regex_test_i_prefix:
  assumes "list_all (prefix q) lits" and "regex_test_i lits s"
  shows "str_includes (toLowerCase s) (toLowerCase q)"
proof -
  from assms(2) obtain p where p: "p \<in> set lits"
    and inc: "str_includes (toLowerCase s) (toLowerCase p)"
    by (auto simp: regex_test_i_def list_ex_iff)
  from assms(1) p have "prefix q p" by (simp add: list_all_iff)
  then obtain r where "p = q @ r" by (auto simp: prefix_def)
  with inc show ?thesis by (auto simp: toLowerCase_append dest: str_includes_append_left)
qed

subsection \<open>The safe-response selectors\<close>

lemma personalExperience_v1_I: "list_all (prefix ''I '') personalExperience_v1"
  by (simp add: personalExperience_v1_def)

lemma mediaFabrication_I: "list_all (prefix ''I '') mediaFabrication"
  by (simp add: mediaFabrication_def)

lemma validateResponse_critical:
  assumes "critical (validateResponse r um)"
  shows "str_includes (toLowerCase r) ''i ''"
proof -
  from assms have "regex_test_i personalExperience_v1 r \<or> regex_test_i mediaFabrication r"
    by (auto simp: critical_def validateResponse_def Let_def split: if_splits)
  then have "str_includes (toLowerCase r) (toLowerCase ''I '')"
    using regex_test_i_prefix [OF personalExperience_v1_I]
      regex_test_i_prefix [OF mediaFabrication_I]
    by blast
  then show ?thesis by (simp add: toLowerCase_def lower_char_Char)
qed

lemma regex_test_iI:
  "p \<in> set lits \<Longrightarrow> str_includes (toLowerCase s) (toLowerCase p) \<Longrightarrow> regex_test_i lits s"
  by (auto simp: regex_test_i_def list_ex_iff)

lemma validateResponse_flags:
  "regex_test_i personalExperience_v1 r \<Longrightarrow> critical (validateResponse r um)"
  by (simp add: validateResponse_def critical_def)

lemma redirects_no_first_person:
  "list_all (\<lambda>t. \<not> str_includes (toLowerCase t) ''i '') PSYCHOLOGICAL_REDIRECTS"
  by (simp add: PSYCHOLOGICAL_REDIRECTS_def redirect_defs str_eval)

lemma createSafeRedirectResponse_in_table:
  "createSafeRedirectResponse um vs \<in> set PSYCHOLOGICAL_REDIRECTS"
  by (simp add: createSafeRedirectResponse_def PSYCHOLOGICAL_REDIRECTS_def Let_def)

lemma redirects_nonempty: "list_all (\<lambda>t. t \<noteq> []) PSYCHOLOGICAL_REDIRECTS"
  by (simp add: PSYCHOLOGICAL_REDIRECTS_def redirect_defs)

text \<open>
  C3, as the code has it. \<open>createSafeRedirectResponse\<close> always returns a non-empty text of
  \<open>PSYCHOLOGICAL_REDIRECTS\<close>, and never a response \<open>r\<close> that \<open>validateResponse\<close> flags
  with a \<open>CRITICAL:\<close> label. It looks at the violation list first: a label containing
  \<open>personal experiences\<close> selects the psychological-significance redirect whatever the
  user wrote. Only otherwise does the lower-cased user message decide, in this order:
  music, album or song; creative, art or inspired; childhood, early or family; attachment or
  relationship; trauma, difficult or process; and the emotional-connection redirect when
  none of them occurs.
\<close>

theorem createSafeRedirectResponse_routing:
  "createSafeRedirectResponse um vs \<in> set PSYCHOLOGICAL_REDIRECTS
   \<and> createSafeRedirectResponse um vs \<noteq> []
   \<and> (critical (validateResponse r um') \<longrightarrow> createSafeRedirectResponse um vs \<noteq> r)
   \<and> createSafeRedirectResponse um vs =
       (if list_ex (\<lambda>v. str_includes v ''personal experiences'') vs
          then psychological_significance
        else if mentions um [''music'', ''album'', ''song''] then music_influence
        else if mentions um [''creative'', ''art'', ''inspired''] then creative_inspiration
        else if mentions um [''childhood'', ''early'', ''family''] then formative_experience
        else if mentions um [''attachment'', ''relationship''] then attachment_pattern
        else if mentions um [''trauma'', ''difficult'', ''process''] then trauma_processing
        else emotional_connection)"
proof (intro conjI)
  show mem: "createSafeRedirectResponse um vs \<in> set PSYCHOLOGICAL_REDIRECTS"
    by (rule createSafeRedirectResponse_in_table)
  from mem redirects_nonempty show "createSafeRedirectResponse um vs \<noteq> []"
    by (simp add: list_all_iff)
  show "critical (validateResponse r um') \<longrightarrow> createSafeRedirectResponse um vs \<noteq> r"
  proof
    assume "critical (validateResponse r um')"
    then have "str_includes (toLowerCase r) ''i ''" by (rule validateResponse_critical)
    moreover from mem redirects_no_first_person
    have "\<not> str_includes (toLowerCase (createSafeRedirectResponse um vs)) ''i ''"
      by (simp add: list_all_iff)
    ultimately show "createSafeRedirectResponse um vs \<noteq> r" by auto
  qed
  show "createSafeRedirectResponse um vs =
       (if list_ex (\<lambda>v. str_includes v ''personal experiences'') vs
          then psychological_significance
        else if mentions um [''music'', ''album'', ''song''] then music_influence
        else if mentions um [''creative'', ''art'', ''inspired''] then creative_inspiration
        else if mentions um [''childhood'', ''early'', ''family''] then formative_experience
        else if mentions um [''attachment'', ''relationship''] then attachment_pattern
        else if mentions um [''trauma'', ''difficult'', ''process''] then trauma_processing
        else emotional_connection)"
    by (simp add: createSafeRedirectResponse_def mentions_def Let_def)
qed

theorem createSafeRedirectResponse_routing_witness:
  "critical (validateResponse ''I remember when we met'' ''hello'')
   \<and> createSafeRedirectResponse ''my favourite album''
        [''WARNING: AI role confusion detected''] \<noteq> ''I remember when we met''
   \<and> createSafeRedirectResponse ''my favourite album''
        [''WARNING: AI role confusion detected''] = music_influence"
proof -
  have "regex_test_i personalExperience_v1 ''I remember when we met''"
    by (rule regex_test_iI [where p = "''I remember when''"])
       (simp_all add: personalExperience_v1_def str_eval)
  then have c: "critical (validateResponse ''I remember when we met'' ''hello'')"
    by (rule validateResponse_flags)
  have m: "mentions ''my favourite album'' [''music'', ''album'', ''song'']"
    by (simp add: mentions_def str_eval)
  have p: "\<not> list_ex (\<lambda>v. str_includes v ''personal experiences'')
               [''WARNING: AI role confusion detected'']"
    by (simp add: str_eval)
  from createSafeRedirectResponse_routing
         [of "''my favourite album''" "[''WARNING: AI role confusion detected'']"
             "''I remember when we met''" "''hello''"]
       c m p
  show ?thesis by (simp add: music_influence_def)
qed

text \<open>
  C3 as the specification words it fails: the user mentions a song, the violation list
  holds a \<open>CRITICAL:\<close> label, and the result is not the music redirect.
\<close>

theorem createSafeRedirectResponse_counterexample:
  "str_includes (toLowerCase ''I love this song'') ''song''
   \<and> critical [''CRITICAL: AI claiming personal experiences'']
   \<and> createSafeRedirectResponse ''I love this song''
        [''CRITICAL: AI claiming personal experiences''] \<noteq> music_influence"
  by (simp add: createSafeRedirectResponse_def critical_def redirect_defs str_eval)

text \<open>
  C9. \<open>createSafeAnalysisResponse\<close> does not depend on the violation list: two calls with
  the same user message return the same redirect. \<open>createSafeRedirectResponse\<close> does depend
  on it.
\<close>

theorem createSafeAnalysisResponse_ignores_violations:
  "createSafeAnalysisResponse m v1 = createSafeAnalysisResponse m v2
   \<and> createSafeRedirectResponse ''a song'' []
       \<noteq> createSafeRedirectResponse ''a song'' [''CRITICAL: AI claiming personal experiences'']"
  by (simp add: createSafeAnalysisResponse_def createSafeRedirectResponse_def redirect_defs
      str_eval)

theorem createSafeAnalysisResponse_ignores_violations_witness:
  "createSafeAnalysisResponse ''a song'' [] = musical_analysis
   \<and> createSafeAnalysisResponse ''a song'' [''CRITICAL: AI claiming personal experiences'']
       = musical_analysis"
proof -
  have "createSafeAnalysisResponse ''a song'' [] = musical_analysis"
    by (simp add: createSafeAnalysisResponse_def str_eval)
  with createSafeAnalysisResponse_ignores_violations
         [of "''a song''" "[''CRITICAL: AI claiming personal experiences'']" "[]"]
  show ?thesis by simp
qed

subsection \<open>Quality scores\<close>

lemma opt_longer_count: "opt_longer n xs = (n < opt_count xs)"
  by (simp add: opt_longer_def opt_count_def split: option.splits)

lemma calculateResponseQuality_spec: "calculateResponseQuality m = spec_message_score m"
  by (simp add: calculateResponseQuality_def spec_message_score_def clamp_def Let_def
      opt_longer_count opt_count_def mult.commute split: option.splits)

lemma assessResponseQuality_spec:
  "score (assessResponseQuality r um) = spec_response_score r um"
  by (simp add: assessResponseQuality_def spec_response_score_def clamp_def Let_def mentions_def
      mult.commute)

text \<open>
  C5. The message-level scorer is the clamp to \<open>[0, 100]\<close> of 100, minus 15 for every
  boundary violation, plus 5 for more than two psychological patterns, plus 5 for at least
  one emotional marker. The response-level scorer is the clamp of 100, minus 20 for every
  label of \<open>validateResponse\<close>, minus 10 when no framework word occurs in a response of
  more than 100 characters, minus 5 when no question mark occurs in a response of more
  than 50. Both scores lie between 0 and 100.
\<close>

theorem quality_scores_clamped:
  "calculateResponseQuality m = spec_message_score m
   \<and> 0 \<le> calculateResponseQuality m \<and> calculateResponseQuality m \<le> 100
   \<and> score (assessResponseQuality r um) = spec_response_score r um
   \<and> 0 \<le> score (assessResponseQuality r um) \<and> score (assessResponseQuality r um) \<le> 100"
  by (simp add: calculateResponseQuality_spec assessResponseQuality_spec spec_message_score_def
      spec_response_score_def clamp_def)

lemma match_g_eval: "match_g mediaClaims ''I experienced that'' = []"
  by (simp add: match_g.simps mediaClaims_def prefix_i_def toLowerCase_def lower_char_Char)

lemma validateResponse_eval:
  "validateResponse ''I experienced that'' ''hello'' =
     [''CRITICAL: AI claiming personal experiences'',
      ''CRITICAL: AI fabricating personal media experiences'']"
  by (simp add: validateResponse_def match_g_eval regex_test_i_def personalExperience_v1_def
      mediaFabrication_def roleConfusion_def therapeuticOverreach_def str_eval)

theorem quality_scores_clamped_witness:
  "calculateResponseQuality
     ((plain_message Assistant ''x'')\<lparr>boundaryViolations := Some (replicate 8 ''v'')\<rparr>) = 0
   \<and> score (assessResponseQuality ''I experienced that'' ''hello'') = 60"
proof -
  have a: "spec_message_score
     ((plain_message Assistant ''x'')\<lparr>boundaryViolations := Some (replicate 8 ''v'')\<rparr>) = 0"
    by (simp add: spec_message_score_def clamp_def opt_count_def plain_message_def)
  have b: "spec_response_score ''I experienced that'' ''hello'' = 60"
    by (simp add: spec_response_score_def validateResponse_eval clamp_def)
  from quality_scores_clamped
         [of "(plain_message Assistant ''x'')\<lparr>boundaryViolations := Some (replicate 8 ''v'')\<rparr>"
             "''I experienced that''" "''hello''"] a b
  show ?thesis by simp
qed

subsection \<open>Depth classification\<close>

lemma list_ex_userMessages:
  "list_ex P (userMessages ms) = list_ex (\<lambda>m. role m = User \<and> P m) ms"
  by (auto simp: userMessages_def list_ex_iff)

lemma lacks_content_spec:
  "(\<not> hasEmotionalContent ms \<and> \<not> hasPsychologicalContent ms) = amended_lacks_content ms"
  by (simp add: hasEmotionalContent_def hasPsychologicalContent_def amended_lacks_content_def
      list_ex_userMessages opt_longer_count)

lemma deep_exploration_spec: "hasDeepExploration ms = spec_deep_exploration ms"
  by (simp add: hasDeepExploration_def spec_deep_exploration_def list_ex_userMessages
      mentions_def)

lemma assessConversationDepth_Some:
  "currentSession st = Some cs \<Longrightarrow>
   assessConversationDepth st =
     (amended_depth (messages cs), st\<lparr>currentConversationDepth := amended_depth (messages cs)\<rparr>)"
  by (simp add: assessConversationDepth_def amended_depth_def Let_def lacks_content_spec
      deep_exploration_spec)

text \<open>
  C2, as the code has it. With an active session, \<open>assessConversationDepth\<close> returns
  and stores the label of the ordered cascade: surface below 4 messages; emerging below 8
  messages or when no user message has an emotional marker recorded and no user message
  has more than two psychological patterns recorded; deep below 15 messages or when no
  user message of more than 200 characters mentions childhood, trauma, family or
  relationship; integration otherwise. A session without messages, and so a session just
  created, is surface.
\<close>

theorem assessConversationDepth_cascade:
  assumes "currentSession st = Some cs"
  shows "fst (assessConversationDepth st) = amended_depth (messages cs)
    \<and> currentConversationDepth (snd (assessConversationDepth st)) = amended_depth (messages cs)
    \<and> (messages cs = [] \<longrightarrow> fst (assessConversationDepth st) = Surface)
    \<and> fst (assessConversationDepth (createNewSession k new_id t1 t2 st0)) = Surface"
proof -
  have "currentSession (createNewSession k new_id t1 t2 st0) \<noteq> None"
    by (simp add: createNewSession_def Let_def)
  then obtain ns where ns: "currentSession (createNewSession k new_id t1 t2 st0) = Some ns"
    by blast
  then have "messages ns = []"
    by (auto simp: createNewSession_def Let_def)
  with ns have "fst (assessConversationDepth (createNewSession k new_id t1 t2 st0)) = Surface"
    by (simp add: assessConversationDepth_Some amended_depth_def)
  with assms show ?thesis
    by (simp add: assessConversationDepth_Some amended_depth_def)
qed

lemma mentions_append_right: "mentions b ws \<Longrightarrow> mentions (a @ b) ws"
  by (auto simp: mentions_def list_ex_iff str_includes_def toLowerCase_append sublist_append)

lemma deep_message_facts:
  "role deep_message = User" "200 < length (content deep_message)"
  "mentions (content deep_message) [''childhood'', ''trauma'', ''family'', ''relationship'']"
  "opt_count (emotionalMarkers deep_message) = 1"
proof -
  have "mentions ''my Childhood'' [''childhood'', ''trauma'', ''family'', ''relationship'']"
    by (simp add: mentions_def str_eval)
  then show "mentions (content deep_message)
               [''childhood'', ''trauma'', ''family'', ''relationship'']"
    by (simp add: deep_message_def plain_message_def mentions_append_right)
qed (simp_all add: deep_message_def plain_message_def opt_count_def)

lemma amended_depth_deep_messages: "amended_depth (replicate 15 deep_message) = Integration"
  by (simp add: amended_depth_def amended_lacks_content_def spec_deep_exploration_def list_ex_iff
      deep_message_facts)

theorem assessConversationDepth_cascade_witness:
  "fst (assessConversationDepth (with_messages (replicate 9 sad_message))) = Deep
   \<and> fst (assessConversationDepth (with_messages (replicate 15 deep_message))) = Integration
   \<and> fst (assessConversationDepth (with_messages [])) = Surface
   \<and> fst (assessConversationDepth (createNewSession Music ''s1'' 1 1 initialState)) = Surface"
proof -
  have a: "amended_depth (replicate 9 sad_message) = Deep"
    by (simp add: amended_depth_def amended_lacks_content_def spec_deep_exploration_def sad_message_def
        plain_message_def opt_count_def list_ex_iff)
  have b: "amended_depth [] = Surface" by (simp add: amended_depth_def)
  from assessConversationDepth_cascade [of "with_messages (replicate 9 sad_message)" _ Music "''s1''" 1 1 initialState]
       assessConversationDepth_cascade [of "with_messages (replicate 15 deep_message)"]
       assessConversationDepth_cascade [of "with_messages []"]
       a b amended_depth_deep_messages
  show ?thesis by (simp add: with_messages_def)
qed

lemma depth_rank_mono:
  assumes "length ms \<le> length ms'"
    and "hasEmotionalContent ms' = hasEmotionalContent ms"
    and "hasPsychologicalContent ms' = hasPsychologicalContent ms"
    and "hasDeepExploration ms' = hasDeepExploration ms"
  shows "depth_rank (amended_depth ms) \<le> depth_rank (amended_depth ms')"
proof -
  from assms(2,3) have "amended_lacks_content ms' = amended_lacks_content ms"
    by (simp add: lacks_content_spec [symmetric])
  moreover from assms(4) have "spec_deep_exploration ms' = spec_deep_exploration ms"
    by (simp add: deep_exploration_spec)
  ultimately show ?thesis using assms(1)
    by (auto simp: amended_depth_def)
qed

text \<open>
  C8. When messages are appended to the active session and the three content predicates
  keep their values, the label does not move back in the order surface, emerging, deep,
  integration; a session classified deep is not classified surface afterwards.
\<close>

theorem depth_monotone_in_message_count:
  assumes "currentSession st = Some cs" and "currentSession st' = Some cs'"
    and "messages cs' = messages cs @ extra"
    and "hasEmotionalContent (messages cs') = hasEmotionalContent (messages cs)"
    and "hasPsychologicalContent (messages cs') = hasPsychologicalContent (messages cs)"
    and "hasDeepExploration (messages cs') = hasDeepExploration (messages cs)"
  shows "depth_rank (fst (assessConversationDepth st))
           \<le> depth_rank (fst (assessConversationDepth st'))
    \<and> (fst (assessConversationDepth st) = Deep \<longrightarrow> fst (assessConversationDepth st') \<noteq> Surface)"
proof -
  from assms(3) have "length (messages cs) \<le> length (messages cs')" by simp
  from depth_rank_mono [OF this assms(4-6)] assms(1,2)
  have le: "depth_rank (fst (assessConversationDepth st))
           \<le> depth_rank (fst (assessConversationDepth st'))"
    by (simp add: assessConversationDepth_Some)
  then show ?thesis by (auto dest: arg_cong [where f = depth_rank])
qed

lemma with_messages_current:
  "currentSession (with_messages ms) =
     Some \<lparr>session_id = ''s'', title = ''t'', messages = ms, createdAt = 0, updatedAt = 0,
           session_type = Music, conversationState = createDefaultConversationState,
           psychologicalProfile = None\<rparr>"
  by (simp add: with_messages_def)

lemma sad_predicates:
  "0 < n \<Longrightarrow> hasEmotionalContent (replicate n sad_message)"
  "\<not> hasPsychologicalContent (replicate n sad_message)"
  "\<not> hasDeepExploration (replicate n sad_message)"
  by (auto simp: hasEmotionalContent_def hasPsychologicalContent_def hasDeepExploration_def
      userMessages_def list_ex_iff sad_message_def plain_message_def opt_longer_def)

theorem depth_monotone_in_message_count_witness:
  "depth_rank (fst (assessConversationDepth (with_messages (replicate 8 sad_message))))
     \<le> depth_rank (fst (assessConversationDepth
                          (with_messages (replicate 8 sad_message @ replicate 3 sad_message))))
   \<and> fst (assessConversationDepth (with_messages (replicate 8 sad_message))) = Deep
   \<and> fst (assessConversationDepth
             (with_messages (replicate 8 sad_message @ replicate 3 sad_message))) \<noteq> Surface"
proof -
  have eq: "replicate 8 sad_message @ replicate 3 sad_message = replicate 11 sad_message"
    by (simp add: replicate_add [symmetric])
  have d: "fst (assessConversationDepth (with_messages (replicate 8 sad_message))) = Deep"
    using assessConversationDepth_Some [OF with_messages_current [of "replicate 8 sad_message"]]
    by (simp add: amended_depth_def lacks_content_spec [symmetric]
        deep_exploration_spec [symmetric] sad_predicates)
  from depth_monotone_in_message_count
         [OF with_messages_current [of "replicate 8 sad_message"]
             with_messages_current [of "replicate 8 sad_message @ replicate 3 sad_message"],
          of "replicate 3 sad_message"] d
  show ?thesis by (simp add: eq sad_predicates)
qed

subsection \<open>Store operations\<close>

lemma assessConversationDepth_frame:
  "currentSession (snd (assessConversationDepth st)) = currentSession st"
  "sessions (snd (assessConversationDepth st)) = sessions st"
  by (simp_all add: assessConversationDepth_def Let_def split: option.splits)

lemma generateConversationSuggestions_frame:
  "currentSession (generateConversationSuggestions st) = currentSession st"
  "sessions (generateConversationSuggestions st) = sessions st"
  by (simp_all add: generateConversationSuggestions_def Let_def split: option.splits)

lemma updateSystemHealth_frame:
  "currentSession (updateSystemHealth st) = currentSession st"
  "sessions (updateSystemHealth st) = sessions st"
  "totalBoundaryViolations (updateSystemHealth st) = totalBoundaryViolations st"
  by (simp_all add: updateSystemHealth_def Let_def)

lemma addMessage_currentSession:
  assumes "currentSession st = Some cs"
  shows "currentSession (addMessage m i t1 t2 st) =
     Some (cs\<lparr>messages := messages cs @ [appended m i t1], updatedAt := t2,
              title := (if messages cs = [] \<and> role m = User
                        then take 60 (content m) @ (if 60 < length (content m) then ''...'' else [])
                        else title cs)\<rparr>)"
  using assms
  by (simp add: addMessage_def Let_def appended_def assessConversationDepth_frame
      generateConversationSuggestions_frame)

lemma addMessage_sessions:
  assumes "currentSession st = Some cs"
  shows "sessions (addMessage m i t1 t2 st) =
     map (\<lambda>s. if session_id s = session_id cs
               then cs\<lparr>messages := messages cs @ [appended m i t1], updatedAt := t2,
                      title := (if messages cs = [] \<and> role m = User
                        then take 60 (content m) @ (if 60 < length (content m) then ''...'' else [])
                        else title cs)\<rparr>
               else s) (sessions st)"
  using assms
  by (simp add: addMessage_def Let_def appended_def assessConversationDepth_frame
      generateConversationSuggestions_frame)

lemma createNewSession_current:
  "currentSession (createNewSession Music ''s1'' 1 1 st) = Some fresh_session"
  by (simp add: createNewSession_def fresh_session_def analysisTypeNames_def Let_def)

lemma extract_eval:
  "extractEmotionalMarkers ''I feel calm'' = [''calm'']"
  "extractPsychologicalPatterns ''I feel calm'' = []"
  by (simp_all add: extractEmotionalMarkers_def extractPsychologicalPatterns_def
      emotionalWords_def patterns_def str_eval)

lemma add_all_messages:
  assumes "currentSession st = Some cs"
  shows "\<exists>cs'. currentSession (add_all xs st) = Some cs'
           \<and> messages cs' = messages cs @ map (\<lambda>(m, i). appended m i 2) xs"
  using assms
proof (induction xs arbitrary: st cs)
  case Nil
  then show ?case by (simp add: add_all_def)
next
  case (Cons x xs)
  obtain m i where x: "x = (m, i)" by (cases x)
  from Cons.IH [OF addMessage_currentSession [OF Cons.prems, of m i 2 2]] x
  show ?case by (simp add: add_all_def)
qed

lemma counterexample_extracts:
  "extractEmotionalMarkers ''my childhood and family'' = []"
  "extractPsychologicalPatterns ''my childhood and family'' = [''childhood'', ''family'']"
  "extractEmotionalMarkers ''That sounds sad and lonely'' = [''lonely'', ''sad'']"
  "extractPsychologicalPatterns ''That sounds sad and lonely'' = []"
  "extractEmotionalMarkers ''ok'' = []"
  "extractPsychologicalPatterns ''ok'' = []"
  by (simp_all add: extractEmotionalMarkers_def extractPsychologicalPatterns_def
      emotionalWords_def patterns_def str_eval)

lemmas depth_eval =
  amended_depth_def claimed_depth_def amended_lacks_content_def claimed_lacks_content_def
  spec_deep_exploration_def appended_def plain_message_def opt_count_def
  counterexample_extracts

text \<open>
  C2 as the specification words it fails. Eight user messages that each name two
  psychological patterns, and four user messages without content in turn with four
  assistant messages that name emotions, do not lack emotional-marker and
  psychological-pattern content, and the classifier still answers emerging.
\<close>

theorem assessConversationDepth_counterexample:
  "fst (assessConversationDepth family_state) = Emerging
   \<and> map_option (claimed_depth \<circ> messages) (currentSession family_state) = Some Deep
   \<and> fst (assessConversationDepth mixed_state) = Emerging
   \<and> map_option (claimed_depth \<circ> messages) (currentSession mixed_state) = Some Deep"
proof -
  from add_all_messages [OF createNewSession_current [of initialState]]
  obtain cs where cur: "currentSession family_state = Some cs"
    and ms: "messages cs = messages fresh_session
        @ map (\<lambda>(m, i). appended m i 2)
            (map (Pair (plain_message User ''my childhood and family''))
               [''m1'', ''m2'', ''m3'', ''m4'', ''m5'', ''m6'', ''m7'', ''m8''])"
    unfolding family_state_def by blast
  from add_all_messages [OF createNewSession_current [of initialState]]
  obtain cs' where cur': "currentSession mixed_state = Some cs'"
    and ms': "messages cs' = messages fresh_session
        @ map (\<lambda>(m, i). appended m i 2)
            [(plain_message User ''ok'', ''m1''),
             (plain_message Assistant ''That sounds sad and lonely'', ''m2''),
             (plain_message User ''ok'', ''m3''),
             (plain_message Assistant ''That sounds sad and lonely'', ''m4''),
             (plain_message User ''ok'', ''m5''),
             (plain_message Assistant ''That sounds sad and lonely'', ''m6''),
             (plain_message User ''ok'', ''m7''),
             (plain_message Assistant ''That sounds sad and lonely'', ''m8'')]"
    unfolding mixed_state_def by blast
  have a: "amended_depth (messages cs) = Emerging" "claimed_depth (messages cs) = Deep"
    by (simp_all add: ms fresh_session_def depth_eval)
  have b: "amended_depth (messages cs') = Emerging" "claimed_depth (messages cs') = Deep"
    by (simp_all add: ms' fresh_session_def depth_eval)
  show ?thesis
    by (simp add: assessConversationDepth_Some [OF cur] assessConversationDepth_Some [OF cur']
        cur cur' a b)
qed

text \<open>
  C10. With an active session, \<open>addMessage\<close> appends one message that has the role and
  the content of the caller's object, an empty list of boundary violations, the emotional
  markers and psychological patterns extracted from the content, and the validation score
  100 for an assistant and none for a user. Derived fields in the caller's object make no
  difference to the resulting store.
\<close>

theorem addMessage_derived_fields:
  assumes "currentSession st = Some cs"
  shows "\<exists>cs' nm. currentSession (addMessage m new_id now_msg now_upd st) = Some cs'
      \<and> messages cs' = messages cs @ [nm]
      \<and> role nm = role m \<and> content nm = content m
      \<and> boundaryViolations nm = Some []
      \<and> emotionalMarkers nm = Some (extractEmotionalMarkers (content m))
      \<and> psychologicalPatterns nm = Some (extractPsychologicalPatterns (content m))
      \<and> validationScore nm = (if role m = Assistant then Some 100 else None)
      \<and> addMessage (m\<lparr>emotionalMarkers := e, psychologicalPatterns := p,
                       validationScore := v, boundaryViolations := b\<rparr>)
           new_id now_msg now_upd st
         = addMessage m new_id now_msg now_upd st"
proof -
  have "addMessage (m\<lparr>emotionalMarkers := e, psychologicalPatterns := p,
                       validationScore := v, boundaryViolations := b\<rparr>)
           new_id now_msg now_upd st
         = addMessage m new_id now_msg now_upd st"
    by (simp add: addMessage_def Let_def split: option.splits cong: if_cong)
  moreover have "role m \<noteq> User \<longleftrightarrow> role m = Assistant" by (cases "role m") simp_all
  ultimately show ?thesis
    using addMessage_currentSession [OF assms, of m new_id now_msg now_upd]
    by (simp add: appended_def)
qed


theorem addMessage_derived_fields_witness:
  "\<exists>cs' nm. currentSession
       (addMessage ((plain_message Assistant ''I feel calm'')
                      \<lparr>validationScore := Some 3, boundaryViolations := Some [''junk'']\<rparr>)
          ''m1'' 2 2 (createNewSession Music ''s1'' 1 1 initialState)) = Some cs'
     \<and> messages cs' = [nm]
     \<and> boundaryViolations nm = Some [] \<and> validationScore nm = Some 100
     \<and> emotionalMarkers nm = Some [''calm''] \<and> psychologicalPatterns nm = Some []"
  using addMessage_derived_fields [OF createNewSession_current [of initialState],
      where m = "(plain_message Assistant ''I feel calm'')
                      \<lparr>validationScore := Some 3, boundaryViolations := Some [''junk'']\<rparr>"
        and new_id = "''m1''" and now_msg = 2 and now_upd = 2
        and e = None and p = None and v = None and b = None]
  by (auto simp: plain_message_def extract_eval fresh_session_def)

lemma updateLastMessage_assistant:
  assumes "currentSession st = Some cs" and "messages cs \<noteq> []"
    and "role (last (messages cs)) = Assistant"
  shows "currentSession (updateLastMessage c sc vs t st) =
     Some (cs\<lparr>messages :=
                butlast (messages cs)
                @ [(last (messages cs))
                     \<lparr>content := c,
                      psychologicalPatterns := Some (extractPsychologicalPatterns c),
                      emotionalMarkers := Some (extractEmotionalMarkers c),
                      validationScore := Some sc, boundaryViolations := Some vs\<rparr>],
              conversationState :=
                (conversationState cs)
                  \<lparr>last_validation_score := sc,
                   boundary_violations_count :=
                     boundary_violations_count (conversationState cs) + int (length vs),
                   response_quality_average :=
                     to_double
                       (to_double
                          (response_quality_average (conversationState cs)
                           + real_of_int
                               (calculateResponseQuality
                                  ((last (messages cs))
                                     \<lparr>content := c, boundaryViolations := Some vs,
                                      emotionalMarkers := Some (extractEmotionalMarkers c),
                                      psychologicalPatterns :=
                                        Some (extractPsychologicalPatterns c)\<rparr>))) / 2)\<rparr>,
              updatedAt := t\<rparr>)"
  using assms by (simp add: updateLastMessage_def Let_def updateSystemHealth_frame)

lemma calculateResponseQuality_cong:
  "boundaryViolations a = boundaryViolations b \<Longrightarrow>
   psychologicalPatterns a = psychologicalPatterns b \<Longrightarrow>
   emotionalMarkers a = emotionalMarkers b \<Longrightarrow>
   calculateResponseQuality a = calculateResponseQuality b"
  by (simp add: calculateResponseQuality_def)

text \<open>
  C6, as the code has it. When the last message of the active session is an assistant
  message, \<open>updateLastMessage\<close> adds the length of the violation list to the session's
  \<open>boundary_violations_count\<close> (and to the store's total), and the session's
  \<open>response_quality_average\<close> becomes the old average plus the quality score of the
  rewritten message, rounded to a double, and divided by two; it is exactly the old
  average plus the score, divided by two, when that sum and its half are doubles. The
  score is the message-level score of the new content and violation list.
\<close>

theorem updateLastMessage_blend:
  assumes "currentSession st = Some cs" and "messages cs \<noteq> []"
    and "role (last (messages cs)) = Assistant"
  shows "\<exists>cs'. currentSession (updateLastMessage c sc vs t st) = Some cs'
      \<and> content (last (messages cs')) = c
      \<and> boundaryViolations (last (messages cs')) = Some vs
      \<and> boundary_violations_count (conversationState cs')
          = boundary_violations_count (conversationState cs) + int (length vs)
      \<and> response_quality_average (conversationState cs')
          = to_double
              (to_double (response_quality_average (conversationState cs)
                          + real_of_int (calculateResponseQuality (last (messages cs')))) / 2)
      \<and> (is_double (response_quality_average (conversationState cs)
                     + real_of_int (calculateResponseQuality (last (messages cs'))))
           \<and> is_double ((response_quality_average (conversationState cs)
                          + real_of_int (calculateResponseQuality (last (messages cs')))) / 2)
          \<longrightarrow> response_quality_average (conversationState cs')
                = (response_quality_average (conversationState cs)
                   + real_of_int (calculateResponseQuality (last (messages cs')))) / 2)
      \<and> calculateResponseQuality (last (messages cs'))
          = clamp (100 - 15 * int (length vs)
                   + (if 2 < length (extractPsychologicalPatterns c) then 5 else 0)
                   + (if 0 < length (extractEmotionalMarkers c) then 5 else 0)) 0 100
      \<and> totalBoundaryViolations (updateLastMessage c sc vs t st)
          = totalBoundaryViolations st + int (length vs)"
proof -
  let ?old = "last (messages cs)"
  let ?new = "?old\<lparr>content := c,
                      psychologicalPatterns := Some (extractPsychologicalPatterns c),
                      emotionalMarkers := Some (extractEmotionalMarkers c),
                      validationScore := Some sc, boundaryViolations := Some vs\<rparr>"
  have q: "calculateResponseQuality
             (?old\<lparr>content := c, boundaryViolations := Some vs,
                    emotionalMarkers := Some (extractEmotionalMarkers c),
                    psychologicalPatterns := Some (extractPsychologicalPatterns c)\<rparr>)
           = calculateResponseQuality ?new"
    by (rule calculateResponseQuality_cong) simp_all
  have closed: "calculateResponseQuality ?new
          = clamp (100 - 15 * int (length vs)
                   + (if 2 < length (extractPsychologicalPatterns c) then 5 else 0)
                   + (if 0 < length (extractEmotionalMarkers c) then 5 else 0)) 0 100"
    by (simp add: calculateResponseQuality_spec spec_message_score_def opt_count_def)
  have total: "totalBoundaryViolations (updateLastMessage c sc vs t st)
          = totalBoundaryViolations st + int (length vs)"
    using assms by (simp add: updateLastMessage_def Let_def updateSystemHealth_frame)
  show ?thesis
    using updateLastMessage_assistant [OF assms, of c sc vs t] q closed total
    by (simp add: is_double_def)
qed

lemma one_reply_current:
  "currentSession one_reply_state =
     Some (fresh_session
            \<lparr>messages := [appended (plain_message Assistant []) ''m1'' 2], updatedAt := 2\<rparr>)"
  using addMessage_currentSession [OF createNewSession_current [of initialState],
      of "plain_message Assistant []" "''m1''" 2 2]
  by (simp add: one_reply_state_def fresh_session_def plain_message_def)

lemma ok_extract:
  "extractEmotionalMarkers ''ok'' = []" "extractPsychologicalPatterns ''ok'' = []"
  by (simp_all add: extractEmotionalMarkers_def extractPsychologicalPatterns_def
      emotionalWords_def patterns_def str_eval)

theorem updateLastMessage_blend_witness:
  "is_double (100 + 70) \<and> is_double ((100 + 70) / 2)
   \<and> (\<exists>cs'. currentSession (updateLastMessage ''ok'' 100 [''v1'', ''v2''] 3 one_reply_state)
            = Some cs'
      \<and> boundary_violations_count (conversationState cs') = 2
      \<and> response_quality_average (conversationState cs') = 85)"
proof -
  have d: "is_double (100 + 70)" "is_double ((100 + 70) / 2)"
    by (simp_all add: is_double_def to_double_values)
  from updateLastMessage_blend [OF one_reply_current, of "''ok''" 100 "[''v1'', ''v2'']" 3] d
  show ?thesis
    by (auto simp: ok_extract clamp_def appended_def plain_message_def fresh_session_def
        createDefaultConversationState_def)
qed

lemma ok_update:
  assumes "currentSession st = Some cs" and "messages cs \<noteq> []"
    and "role (last (messages cs)) = Assistant"
  shows "\<exists>cs'. currentSession (updateLastMessage ''ok'' 100 vs t st) = Some cs'
      \<and> messages cs' \<noteq> [] \<and> role (last (messages cs')) = Assistant
      \<and> calculateResponseQuality (last (messages cs'))
          = clamp (100 - 15 * int (length vs)) 0 100
      \<and> response_quality_average (conversationState cs')
          = blend (response_quality_average (conversationState cs)) (ok_score vs)"
  using assms
  by (simp add: updateLastMessage_assistant [OF assms] calculateResponseQuality_spec
      spec_message_score_def opt_count_def ok_extract blend_def ok_score_def)

lemma fold_ok_updates:
  assumes "currentSession st = Some cs" and "messages cs \<noteq> []"
    and "role (last (messages cs)) = Assistant"
  shows "\<exists>cs'. currentSession (fold (\<lambda>vs. updateLastMessage ''ok'' 100 vs t) vss st) = Some cs'
      \<and> messages cs' \<noteq> [] \<and> role (last (messages cs')) = Assistant
      \<and> response_quality_average (conversationState cs')
          = fold (\<lambda>vs a. blend a (ok_score vs)) vss
              (response_quality_average (conversationState cs))"
  using assms
proof (induction vss arbitrary: st cs)
  case Nil
  then show ?case by simp
next
  case (Cons vs vss)
  from ok_update [OF Cons.prems, of vs t] obtain cs1
    where 1: "currentSession (updateLastMessage ''ok'' 100 vs t st) = Some cs1"
      "messages cs1 \<noteq> []" "role (last (messages cs1)) = Assistant"
    and a: "response_quality_average (conversationState cs1)
          = blend (response_quality_average (conversationState cs)) (ok_score vs)"
    by blast
  from Cons.IH [OF 1] a show ?case by simp
qed

lemma alternating_average:
  "length updates_46 = 46"
  "fold (\<lambda>vs a. blend a (ok_score vs)) updates_46 100 = 95 + 5 / 2 ^ 46"
  by (simp_all add: updates_46_def updates_2_def blend_def ok_score_def clamp_def fl_eval)

text \<open>
  C6 as the specification words it fails. After 46 rewritings of the assistant message
  the stored average is \<open>95 + 5 / 2 ^ 46\<close>; one more with the score 85 stores
  \<open>90 + 1 / 2 ^ 45\<close>, which is not the old average plus 85, divided by two.
\<close>

theorem updateLastMessage_blend_counterexample:
  "map_option (role \<circ> last \<circ> messages) (currentSession late_blend_state) = Some Assistant
   \<and> map_option (response_quality_average \<circ> conversationState) (currentSession late_blend_state)
       = Some (95 + 5 / 2 ^ 46)
   \<and> map_option (calculateResponseQuality \<circ> last \<circ> messages)
       (currentSession (updateLastMessage ''ok'' 100 [''v''] 3 late_blend_state)) = Some 85
   \<and> map_option (response_quality_average \<circ> conversationState)
       (currentSession (updateLastMessage ''ok'' 100 [''v''] 3 late_blend_state))
       = Some (90 + 1 / 2 ^ 45)
   \<and> (90 + 1 / 2 ^ 45 :: real) \<noteq> (95 + 5 / 2 ^ 46 + 85) / 2"
proof -
  have ne: "messages (fresh_session
            \<lparr>messages := [appended (plain_message Assistant []) ''m1'' 2], updatedAt := 2\<rparr>)
            \<noteq> []"
    and la: "role (last (messages (fresh_session
            \<lparr>messages := [appended (plain_message Assistant []) ''m1'' 2], updatedAt := 2\<rparr>)))
            = Assistant"
    by (simp_all add: appended_def plain_message_def)
  from fold_ok_updates [OF one_reply_current ne la, of 3 updates_46]
  obtain cs where cur: "currentSession late_blend_state = Some cs"
    and ne': "messages cs \<noteq> []" and la': "role (last (messages cs)) = Assistant"
    and avg: "response_quality_average (conversationState cs) = 95 + 5 / 2 ^ 46"
    by (auto simp: late_blend_state_def alternating_average fresh_session_def
        createDefaultConversationState_def)
  from ok_update [OF cur ne' la', of "[''v'']" 3] obtain cs'
    where cur': "currentSession (updateLastMessage ''ok'' 100 [''v''] 3 late_blend_state) = Some cs'"
    and q: "calculateResponseQuality (last (messages cs')) = clamp (100 - 15 * int (length [''v''])) 0 100"
    and avg': "response_quality_average (conversationState cs')
                 = blend (response_quality_average (conversationState cs)) (ok_score [''v''])"
    by blast
  have b: "blend (95 + 5 / 2 ^ 46) (ok_score [''v'']) = 90 + 1 / 2 ^ 45"
    by (simp add: blend_def ok_score_def clamp_def fl_eval)
  have r: "response_quality_average (conversationState cs') = 90 + 1 / 2 ^ 45"
    by (rule trans [OF avg' [unfolded avg] b])
  have q': "calculateResponseQuality (last (messages cs')) = 85"
    by (simp add: q clamp_def)
  have n: "(90 + 1 / 2 ^ 45 :: real) \<noteq> (95 + 5 / 2 ^ 46 + 85) / 2" by simp
  show ?thesis by (simp only: cur cur' option.map comp_apply la' avg r q' n simp_thms)
qed

lemmas store_defs =
  addMessage_def createNewSession_def assessConversationDepth_def
  generateConversationSuggestions_def updateSystemHealth_def recordBoundaryViolation_def
  updateConversationState_def userMessages_def analysisTypeNames_def Let_def

lemma one_question_state_eval:
  "one_question_state =
     initialState\<lparr>currentSession := Some hi_session, sessions := [hi_session],
       suggestedFollowUps := surface_suggestions\<rparr>"
  by (simp add: one_question_state_def hi_session_def fresh_session_def appended_def
      plain_message_def initialState_def surface_suggestions_def store_defs to_double_values)

lemma stale_health_state_eval:
  "stale_health_state =
     initialState\<lparr>currentSession := Some hi_session, sessions := [hi_session],
       suggestedFollowUps := surface_suggestions, totalBoundaryViolations := 1\<rparr>"
  by (simp add: stale_health_state_def hi_session_def fresh_session_def appended_def
      plain_message_def initialState_def surface_suggestions_def store_defs to_double_values)

lemma hi_session_last:
  "messages hi_session \<noteq> []" "role (last (messages hi_session)) = User"
  "map content (messages hi_session) = [''hi'']"
  by (simp_all add: hi_session_def appended_def plain_message_def)

lemma updateLastMessage_user:
  assumes "currentSession st = Some cs" and "messages cs \<noteq> []"
    and "role (last (messages cs)) = User"
  shows "updateLastMessage c sc vs t st = updateSystemHealth st"
  using assms by (simp add: updateLastMessage_def Let_def)

text \<open>
  On the same path the earlier store variant writes the clock reading into \<open>updatedAt\<close>.
\<close>

lemma updateLastMessage_v2_touches_updatedAt:
  assumes "currentSession st = Some cs" and "messages cs \<noteq> []"
    and "role (last (messages cs)) = User"
  shows "map_option updatedAt (currentSession (updateLastMessage_v2 c t st)) = Some t"
  using assms by (simp add: updateLastMessage_v2_def Let_def)

text \<open>
  C4, as the code has it. When the last message of the active session is a user message,
  \<open>updateLastMessage\<close> leaves the active session, the session collection and every
  other field of the store as they are, except \<open>systemHealthScore\<close>, which it computes
  again from the totals of the store; when that value is the one already stored, the call
  changes nothing. The earlier store variant leaves the message list of the active session
  as it is.
\<close>

theorem updateLastMessage_user_last:
  assumes "currentSession st = Some cs" and "messages cs \<noteq> []"
    and "role (last (messages cs)) = User"
  shows "updateLastMessage c sc vs t st
           = st\<lparr>systemHealthScore := systemHealthScore (updateSystemHealth st)\<rparr>
    \<and> currentSession (updateLastMessage c sc vs t st) = Some cs
    \<and> sessions (updateLastMessage c sc vs t st) = sessions st
    \<and> (systemHealthScore (updateSystemHealth st) = systemHealthScore st
         \<longrightarrow> updateLastMessage c sc vs t st = st)
    \<and> map_option messages (currentSession (updateLastMessage_v2 c t st)) = Some (messages cs)"
proof -
  have "updateLastMessage c sc vs t st = updateSystemHealth st"
    using assms by (rule updateLastMessage_user)
  moreover have "updateSystemHealth st
      = st\<lparr>systemHealthScore := systemHealthScore (updateSystemHealth st)\<rparr>"
    by (simp add: updateSystemHealth_def Let_def)
  moreover have "map_option messages (currentSession (updateLastMessage_v2 c t st))
      = Some (messages cs)"
    using assms by (simp add: updateLastMessage_v2_def Let_def)
  ultimately show ?thesis using assms(1) by (auto simp: updateSystemHealth_frame)
qed

theorem updateLastMessage_user_last_witness:
  "updateLastMessage ''x'' 100 [''v''] 3 one_question_state = one_question_state
   \<and> map_option messages (currentSession (updateLastMessage_v2 ''x'' 3 one_question_state))
       = Some (messages hi_session)"
proof -
  have c: "currentSession one_question_state = Some hi_session"
    by (simp add: one_question_state_eval)
  have h: "systemHealthScore (updateSystemHealth one_question_state)
             = systemHealthScore one_question_state"
    by (simp add: one_question_state_eval updateSystemHealth_def Let_def initialState_def
        hi_session_def to_double_values)
  from updateLastMessage_user_last [OF c hi_session_last(1,2), of "''x''" 100 "[''v'']" 3] h
  show ?thesis by simp
qed

text \<open>
  C4 as the specification words it fails. After a recorded boundary violation, a new
  session and one user message, the stored health score is still 100; the call of
  \<open>updateLastMessage\<close> on the user message makes it 0.
\<close>

theorem updateLastMessage_counterexample:
  "map_option (role \<circ> last \<circ> messages) (currentSession stale_health_state) = Some User
   \<and> systemHealthScore stale_health_state = 100
   \<and> systemHealthScore (updateLastMessage ''x'' 100 [] 3 stale_health_state) = 0
   \<and> updateLastMessage ''x'' 100 [] 3 stale_health_state \<noteq> stale_health_state"
proof -
  have c: "currentSession stale_health_state = Some hi_session"
    by (simp add: stale_health_state_eval)
  have a: "systemHealthScore stale_health_state = 100"
    by (simp add: stale_health_state_eval initialState_def)
  have "updateLastMessage ''x'' 100 [] 3 stale_health_state
          = updateSystemHealth stale_health_state"
    by (rule updateLastMessage_user [OF c hi_session_last(1,2)])
  moreover have "systemHealthScore (updateSystemHealth stale_health_state) = 0"
    by (simp add: stale_health_state_eval updateSystemHealth_def Let_def initialState_def
        hi_session_def to_double_values)
  ultimately have b: "systemHealthScore (updateLastMessage ''x'' 100 [] 3 stale_health_state) = 0"
    by simp
  from a b have "updateLastMessage ''x'' 100 [] 3 stale_health_state \<noteq> stale_health_state"
    by auto
  with c a b show ?thesis by (simp add: hi_session_last)
qed


subsection \<open>The invariant of the store\<close>

lemma stamps_ok_mono: "stamps_ok now s \<Longrightarrow> now \<le> now' \<Longrightarrow> stamps_ok now' s"
  by (simp add: stamps_ok_def)

lemma store_inv_same:
  assumes inv: "store_inv now st" and le: "now \<le> now'"
    and cur: "currentSession st' = currentSession st" and ses: "sessions st' = sessions st"
  shows "store_inv now' st' \<and> stamps_mono st st'"
proof
  from inv le cur ses show "store_inv now' st'"
    by (auto simp: store_inv_def active_member_def session_ids_def list_all_iff
        split: option.splits intro: stamps_ok_mono)
  from inv have "inj_on session_id (set (sessions st))"
    by (simp add: store_inv_def session_ids_def distinct_map)
  then show "stamps_mono st st'"
    by (auto simp: stamps_mono_def list_all_iff ses dest: inj_onD)
qed

lemma map_replace_ids:
  "session_id u = i \<Longrightarrow>
   map session_id (map (\<lambda>s. if session_id s = i then u else s) xs) = map session_id xs"
  by (induction xs) auto

lemma store_inv_replace:
  assumes inv: "store_inv now st" and cur: "currentSession st = Some cs"
    and id: "session_id cs' = session_id cs" and cr: "createdAt cs' = createdAt cs"
    and up: "updatedAt cs' = t" and le: "now \<le> t" "t \<le> now'"
    and cur': "currentSession st' = Some cs'"
    and ses': "sessions st' = map (\<lambda>s. if session_id s = session_id cs' then cs' else s)
                                (sessions st)"
  shows "store_inv now' st' \<and> stamps_mono st st'"
proof
  from inv cur have ok: "stamps_ok now cs" by (simp add: store_inv_def)
  with cr up le have ok': "stamps_ok now' cs'" by (simp add: stamps_ok_def)
  have ids: "session_ids st' = session_ids st"
    by (simp add: session_ids_def ses' map_replace_ids)
  from inv have all: "\<forall>s\<in>set (sessions st). stamps_ok now s"
    by (simp add: store_inv_def list_all_iff)
  from le have le': "now \<le> now'" by simp
  have "list_all (stamps_ok now') (sessions st')"
    using all ok' le' by (auto simp: ses' list_all_iff intro: stamps_ok_mono)
  moreover from inv cur id have "active_member st'"
    by (simp add: store_inv_def active_member_def cur' ids)
  moreover from inv have "distinct (session_ids st')" by (simp add: store_inv_def ids)
  ultimately show "store_inv now' st'" using ok' by (simp add: store_inv_def cur')
  from inv have inj: "inj_on session_id (set (sessions st))"
    by (simp add: store_inv_def session_ids_def distinct_map)
  show "stamps_mono st st'"
    unfolding stamps_mono_def list_all_iff ses'
  proof (intro ballI)
    fix s s' assume s: "s \<in> set (sessions st)"
      and "s' \<in> set (map (\<lambda>s. if session_id s = session_id cs' then cs' else s) (sessions st))"
    then obtain s0 where s0: "s0 \<in> set (sessions st)"
      and s': "s' = (if session_id s0 = session_id cs' then cs' else s0)" by auto
    show "if session_id s' = session_id s then updatedAt s \<le> updatedAt s' else True"
    proof (cases "session_id s' = session_id s")
      case False then show ?thesis by simp
    next
      case True
      from s' have "session_id s' = session_id s0" by (simp split: if_splits)
      with True inj s s0 have eq: "s0 = s" by (auto dest: inj_onD)
      from all s have "updatedAt s \<le> now" by (simp add: stamps_ok_def)
      with le up have "updatedAt s \<le> updatedAt cs'" by simp
      with s' eq True show ?thesis by simp
    qed
  qed
qed

lemma addMessage_None:
  "currentSession st = None \<Longrightarrow>
   currentSession (addMessage m i t1 t2 st) = None \<and> sessions (addMessage m i t1 t2 st) = sessions st"
  by (simp add: addMessage_def Let_def assessConversationDepth_frame
      generateConversationSuggestions_frame)

lemma addMessage_inv:
  assumes "store_inv now st" and "now \<le> t2" and "t2 \<le> now'"
  shows "store_inv now' (addMessage m i t1 t2 st) \<and> stamps_mono st (addMessage m i t1 t2 st)"
proof (cases "currentSession st")
  case None
  with assms addMessage_None [OF None, of m i t1 t2] show ?thesis
    by (intro store_inv_same [OF assms(1)]) simp_all
next
  case (Some cs)
  show ?thesis
    by (rule store_inv_replace [OF assms(1) Some _ _ _ assms(2,3)
          addMessage_currentSession [OF Some] ])
       (simp_all add: addMessage_sessions [OF Some])
qed

lemma updateLastMessage_cases:
  "(currentSession (updateLastMessage c sc vs t st) = currentSession st
     \<and> sessions (updateLastMessage c sc vs t st) = sessions st)
   \<or> (\<exists>cs cs'. currentSession st = Some cs
        \<and> currentSession (updateLastMessage c sc vs t st) = Some cs'
        \<and> session_id cs' = session_id cs \<and> createdAt cs' = createdAt cs \<and> updatedAt cs' = t
        \<and> sessions (updateLastMessage c sc vs t st)
            = map (\<lambda>s. if session_id s = session_id cs' then cs' else s) (sessions st))"
  by (simp add: updateLastMessage_def Let_def updateSystemHealth_frame split: option.splits)

lemma updateLastMessage_inv:
  assumes "store_inv now st" and "now \<le> t" and "t \<le> now'"
  shows "store_inv now' (updateLastMessage c sc vs t st)
         \<and> stamps_mono st (updateLastMessage c sc vs t st)"
  using updateLastMessage_cases [of c sc vs t st]
proof (elim disjE exE conjE)
  assume "currentSession (updateLastMessage c sc vs t st) = currentSession st"
    and "sessions (updateLastMessage c sc vs t st) = sessions st"
  with assms show ?thesis by (intro store_inv_same [OF assms(1)]) simp_all
next
  fix cs cs'
  assume "currentSession st = Some cs"
    and "currentSession (updateLastMessage c sc vs t st) = Some cs'"
    and "session_id cs' = session_id cs" and "createdAt cs' = createdAt cs"
    and "updatedAt cs' = t"
    and "sessions (updateLastMessage c sc vs t st)
            = map (\<lambda>s. if session_id s = session_id cs' then cs' else s) (sessions st)"
  then show ?thesis by (intro store_inv_replace [OF assms(1) _ _ _ _ assms(2,3)])
qed

lemma createNewSession_inv:
  assumes inv: "store_inv now st" and fresh: "new_id \<notin> set (session_ids st)"
    and le: "now \<le> t1" "t1 \<le> t2" "t2 \<le> now'"
  shows "store_inv now' (createNewSession k new_id t1 t2 st)
         \<and> stamps_mono st (createNewSession k new_id t1 t2 st)"
proof
  from le have le': "now \<le> now'" by simp
  from inv fresh le le' show "store_inv now' (createNewSession k new_id t1 t2 st)"
    by (auto simp: store_inv_def createNewSession_def Let_def session_ids_def active_member_def
        stamps_ok_def list_all_iff)
  from inv have inj: "inj_on session_id (set (sessions st))"
    by (simp add: store_inv_def session_ids_def distinct_map)
  with fresh show "stamps_mono st (createNewSession k new_id t1 t2 st)"
    by (auto simp: stamps_mono_def createNewSession_def Let_def list_all_iff session_ids_def
        dest: inj_onD)
qed

lemma setCurrentSession_inv:
  assumes inv: "store_inv now st" and le: "now \<le> now'"
    and mem: "case s of None \<Rightarrow> True | Some x \<Rightarrow> x \<in> set (sessions st)"
  shows "store_inv now' (setCurrentSession s st) \<and> stamps_mono st (setCurrentSession s st)"
proof
  from inv le mem show "store_inv now' (setCurrentSession s st)"
    by (auto simp: store_inv_def setCurrentSession_def Let_def session_ids_def active_member_def
        list_all_iff split: option.splits intro: stamps_ok_mono)
  from inv have inj: "inj_on session_id (set (sessions st))"
    by (simp add: store_inv_def session_ids_def distinct_map)
  then show "stamps_mono st (setCurrentSession s st)"
    by (auto simp: stamps_mono_def setCurrentSession_def Let_def list_all_iff dest: inj_onD)
qed

lemma deleteSession_inv:
  assumes inv: "store_inv now st" and le: "now \<le> now'"
  shows "store_inv now' (deleteSession i st) \<and> stamps_mono st (deleteSession i st)"
proof
  let ?fs = "filter (\<lambda>s. session_id s \<noteq> i) (sessions st)"
  from inv have d: "distinct (map session_id ?fs)"
    by (simp add: store_inv_def session_ids_def distinct_map_filter)
  from inv le have all: "list_all (stamps_ok now') ?fs"
    by (auto simp: store_inv_def list_all_iff intro: stamps_ok_mono)
  have cur: "case currentSession (deleteSession i st) of None \<Rightarrow> True
             | Some cs \<Rightarrow> stamps_ok now' cs \<and> session_id cs \<in> set (map session_id ?fs)"
  proof (cases "map_option session_id (currentSession st) = Some i")
    case True
    then have "currentSession (deleteSession i st) = (case ?fs of [] \<Rightarrow> None | s # _ \<Rightarrow> Some s)"
      by (simp add: deleteSession_def Let_def)
    with all show ?thesis by (cases ?fs) (simp_all add: list_all_iff)
  next
    case False
    then have eq: "currentSession (deleteSession i st) = currentSession st"
      by (auto simp: deleteSession_def Let_def)
    show ?thesis
    proof (cases "currentSession st")
      case None with eq show ?thesis by simp
    next
      case (Some cs)
      with False have "session_id cs \<noteq> i" by auto
      moreover from inv Some have "session_id cs \<in> set (map session_id (sessions st))"
        and "stamps_ok now cs"
        by (simp_all add: store_inv_def active_member_def session_ids_def)
      ultimately show ?thesis using eq Some le by (auto intro: stamps_ok_mono)
    qed
  qed
  have ses: "sessions (deleteSession i st) = ?fs" by (simp add: deleteSession_def Let_def)
  from d all cur show "store_inv now' (deleteSession i st)"
    by (auto simp: store_inv_def session_ids_def active_member_def ses split: option.splits)
  from inv have inj: "inj_on session_id (set (sessions st))"
    by (simp add: store_inv_def session_ids_def distinct_map)
  then show "stamps_mono st (deleteSession i st)"
    by (auto simp: stamps_mono_def ses list_all_iff dest: inj_onD)
qed

lemma deleteSession_only:
  assumes "active_member st" and "sessions st = [s]"
  shows "currentSession (deleteSession (session_id s) st) = None
         \<and> sessions (deleteSession (session_id s) st) = []"
  using assms
  by (auto simp: deleteSession_def Let_def active_member_def session_ids_def
      split: option.splits)

text \<open>
  C7, as the code has it. If the store has distinct session identifiers, an active session
  whose identifier is in the collection, and timestamps with \<open>createdAt \<le> updatedAt\<close>
  not after the clock, then so it has after creating a session, appending a message,
  updating the last message, deleting a session, and after setting the current session to
  \<open>null\<close> or to a session of the collection, as long as the clock does not go back; and
  no session's \<open>updatedAt\<close> gets earlier. Deleting the only session leaves no active
  session and an empty collection.
\<close>

theorem store_operations_preserve_invariant:
  assumes "store_inv now st" and "op_ok now now' st op"
  shows "store_inv now' (apply_op op st) \<and> stamps_mono st (apply_op op st)
    \<and> (sessions st = [s] \<longrightarrow>
         currentSession (apply_op (DeleteSession (session_id s)) st) = None
         \<and> sessions (apply_op (DeleteSession (session_id s)) st) = [])"
proof -
  have "store_inv now' (apply_op op st) \<and> stamps_mono st (apply_op op st)"
  proof (cases op)
    case (CreateNewSession k i t1 t2)
    with assms(2) have "i \<notin> set (session_ids st)" "now \<le> t1" "t1 \<le> t2" "t2 \<le> now'"
      by simp_all
    from createNewSession_inv [OF assms(1) this] CreateNewSession show ?thesis by simp
  next
    case (SetCurrentSession x)
    with assms(2) have "now \<le> now'"
      and "case x of None \<Rightarrow> True | Some y \<Rightarrow> y \<in> set (sessions st)"
      by (cases x; simp)+
    from setCurrentSession_inv [OF assms(1) this] SetCurrentSession show ?thesis by simp
  next
    case (AddMessage m i t1 t2)
    with assms(2) have "now \<le> t2" "t2 \<le> now'" by simp_all
    from addMessage_inv [OF assms(1) this] AddMessage show ?thesis by simp
  next
    case (UpdateLastMessage c sc vs t)
    with assms(2) have "now \<le> t" "t \<le> now'" by simp_all
    from updateLastMessage_inv [OF assms(1) this] UpdateLastMessage show ?thesis by simp
  next
    case (DeleteSession i)
    with assms(2) have "now \<le> now'" by simp
    from deleteSession_inv [OF assms(1) this] DeleteSession show ?thesis by simp
  qed
  moreover from assms(1) have "active_member st" by (simp add: store_inv_def)
  ultimately show ?thesis by (simp add: deleteSession_only)
qed

theorem store_operations_preserve_invariant_witness:
  "store_inv 2 one_question_state
   \<and> op_ok 2 5 one_question_state (DeleteSession ''s1'')
   \<and> store_inv 5 (apply_op (DeleteSession ''s1'') one_question_state)
   \<and> currentSession (apply_op (DeleteSession ''s1'') one_question_state) = None
   \<and> sessions (apply_op (DeleteSession ''s1'') one_question_state) = []"
proof -
  have inv: "store_inv 2 one_question_state"
    by (simp add: one_question_state_eval store_inv_def active_member_def session_ids_def
        stamps_ok_def hi_session_def fresh_session_def)
  have ok: "op_ok 2 5 one_question_state (DeleteSession ''s1'')" by simp
  have s: "sessions one_question_state = [hi_session]" "session_id hi_session = ''s1''"
    by (simp_all add: one_question_state_eval hi_session_def fresh_session_def)
  from store_operations_preserve_invariant [OF inv ok, of hi_session] inv ok s
  show ?thesis by simp
qed


text \<open>
  C7 as the specification words it fails: \<open>setCurrentSession\<close> accepts a session that is
  not in the collection, and then the active session is not a member.
\<close>

theorem setCurrentSession_counterexample:
  "store_inv 1 initialState
   \<and> \<not> active_member (apply_op (SetCurrentSession (Some fresh_session)) initialState)"
  by (simp add: store_inv_def active_member_def session_ids_def initialState_def
      setCurrentSession_def Let_def)

subsection \<open>The correction path of the orchestrator\<close>

lemma compat_common: "x @ u = y @ v \<Longrightarrow> compat x y"
  by (auto simp: compat_def prefix_def append_eq_append_conv2)

lemma replace_gi_no_match:
  "\<not> prefix_i pat (c # t) \<Longrightarrow> replace_gi pat rep (c # t) = c # replace_gi pat rep t"
  by (subst replace_gi.simps) simp

lemma replace_gi_match:
  "prefix_i pat s \<Longrightarrow> pat \<noteq> [] \<Longrightarrow>
   replace_gi pat rep s = rep @ replace_gi pat rep (drop (length pat) s)"
  by (subst replace_gi.simps) simp

lemma replace_gi_Nil: "pat \<noteq> [] \<Longrightarrow> replace_gi pat rep [] = []"
  by (subst replace_gi.simps) (simp add: prefix_i_def toLowerCase_def)

lemma replace_gi_keeps_prefix:
  assumes "no_overlap pat n"
  shows "prefix (drop j n) (toLowerCase s) \<Longrightarrow>
         prefix (drop j n) (toLowerCase (replace_gi pat rep s))"
proof (induction s arbitrary: j)
  case Nil
  then show ?case by (simp add: toLowerCase_def)
next
  case (Cons c t)
  show ?case
  proof (cases "j < length n")
    case False
    then show ?thesis by simp
  next
    case True
    from assms have "\<forall>j\<in>set [0..<length n]. \<not> compat (toLowerCase pat) (drop j n)"
      by (simp add: no_overlap_def list_all_iff)
    moreover from True have "j \<in> set [0..<length n]" by simp
    ultimately have nc: "\<not> compat (toLowerCase pat) (drop j n)" by blast
    have "\<not> prefix_i pat (c # t)"
    proof
      assume "prefix_i pat (c # t)"
      then obtain u where "toLowerCase (c # t) = toLowerCase pat @ u"
        by (auto simp: prefix_i_def prefix_def)
      moreover from Cons.prems obtain v where "toLowerCase (c # t) = drop j n @ v"
        by (auto simp: prefix_def)
      ultimately have "compat (toLowerCase pat) (drop j n)"
        by (metis compat_common)
      with nc show False by blast
    qed
    then have eq: "replace_gi pat rep (c # t) = c # replace_gi pat rep t"
      by (rule replace_gi_no_match)
    from True have dj: "drop j n = n ! j # drop (Suc j) n"
      by (simp add: Cons_nth_drop_Suc)
    with Cons.prems have hd: "n ! j = lower_char c"
      and tl: "prefix (drop (Suc j) n) (toLowerCase t)"
      by (simp_all add: toLowerCase_def)
    from Cons.IH [OF tl] hd dj eq show ?thesis
      by (simp add: toLowerCase_def)
  qed
qed

lemma replace_gi_keeps_sublist:
  assumes no: "no_overlap pat n"
  shows "sublist n (toLowerCase s) \<Longrightarrow> sublist n (toLowerCase (replace_gi pat rep s))"
proof (induction s rule: length_induct)
  case (1 s)
  from no have ne: "pat \<noteq> []" by (simp add: no_overlap_def)
  show ?case
  proof (cases "n = []")
    case True
    then show ?thesis by simp
  next
    case nn: False
    show ?thesis
    proof (cases "prefix_i pat s")
      case True
      then obtain u where u: "toLowerCase s = toLowerCase pat @ u"
        by (auto simp: prefix_i_def prefix_def)
      then have len: "length pat \<le> length s"
        by (metis length_append length_toLowerCase le_add1)
      from "1.prems" obtain a b where ab: "toLowerCase s = a @ n @ b"
        by (auto simp: sublist_def)
      have le: "length pat \<le> length a"
      proof (rule ccontr)
        assume "\<not> length pat \<le> length a"
        then have lt: "length a < length pat" by simp
        from u ab have "drop (length a) (toLowerCase pat @ u) = drop (length a) (a @ n @ b)"
          by simp
        with lt have "drop (length a) (toLowerCase pat) @ u = n @ b" by simp
        then have c: "compat (drop (length a) (toLowerCase pat)) n" by (rule compat_common)
        show False
        proof (cases "length a = 0")
          case True
          with c have "compat (toLowerCase pat) (drop 0 n)" by simp
          moreover have "\<not> compat (toLowerCase pat) (drop 0 n)"
          proof -
            from no have "\<forall>j\<in>set [0..<length n]. \<not> compat (toLowerCase pat) (drop j n)"
              by (simp add: no_overlap_def list_all_iff)
            moreover from nn have "0 \<in> set [0..<length n]" by simp
            ultimately show ?thesis by blast
          qed
          ultimately show False by blast
        next
          case False
          from no have "\<forall>k\<in>set [1..<length pat]. \<not> compat (drop k (toLowerCase pat)) n"
            by (simp add: no_overlap_def list_all_iff)
          moreover from lt False have "length a \<in> set [1..<length pat]" by (cases a) auto
          ultimately have "\<not> compat (drop (length a) (toLowerCase pat)) n" by blast
          with c show False by blast
        qed
      qed
      from u ab have "drop (length pat) (toLowerCase pat @ u) = drop (length pat) (a @ n @ b)"
        by simp
      with le have "u = drop (length pat) a @ n @ b" by simp
      with u have "sublist n (drop (length pat) (toLowerCase s))"
        by (simp add: sublist_def) blast
      then have "sublist n (toLowerCase (drop (length pat) s))"
        by (simp add: toLowerCase_drop)
      moreover from ne len have "length (drop (length pat) s) < length s"
        by (cases pat) auto
      ultimately have "sublist n (toLowerCase (replace_gi pat rep (drop (length pat) s)))"
        using "1.IH" by blast
      then have "sublist n (toLowerCase rep @ toLowerCase (replace_gi pat rep (drop (length pat) s)))"
        by (simp add: sublist_append)
      with True ne show ?thesis
        by (simp add: replace_gi_match toLowerCase_append)
    next
      case False
      show ?thesis
      proof (cases s)
        case Nil
        with ne "1.prems" show ?thesis by (simp add: replace_gi_Nil)
      next
        case (Cons c t)
        with False have eq: "replace_gi pat rep s = c # replace_gi pat rep t"
          by (simp add: replace_gi_no_match)
        from "1.prems" Cons have "prefix n (toLowerCase s) \<or> sublist n (toLowerCase t)"
          by (simp add: toLowerCase_def sublist_Cons_right)
        then show ?thesis
        proof
          assume "prefix n (toLowerCase s)"
          then have "prefix (drop 0 n) (toLowerCase s)" by simp
          then have "prefix (drop 0 n) (toLowerCase (replace_gi pat rep s))"
            by (rule replace_gi_keeps_prefix [OF no])
          then show ?thesis by simp
        next
          assume "sublist n (toLowerCase t)"
          moreover from Cons have "length t < length s" by simp
          ultimately have "sublist n (toLowerCase (replace_gi pat rep t))"
            using "1.IH" by blast
          with eq show ?thesis by (simp add: toLowerCase_def sublist_Cons_right)
        qed
      qed
    qed
  qed
qed

lemma correction_patterns_no_overlap:
  "list_all (\<lambda>p. no_overlap p ''i remember'') correction_patterns"
  by code_simp

lemma correctAnalysisLanguage_keeps_remember:
  assumes "sublist ''i remember'' (toLowerCase r)"
  shows "sublist ''i remember'' (toLowerCase (correctAnalysisLanguage r))"
proof -
  have no: "no_overlap p ''i remember''" if "p \<in> set correction_patterns" for p
    using correction_patterns_no_overlap that by (simp add: list_all_iff)
  note keep = replace_gi_keeps_sublist [OF no]
  show ?thesis
    unfolding correctAnalysisLanguage_def comp_def
    by (intro keep assms) (simp_all add: correction_patterns_def)
qed

lemma remember_flagged:
  assumes "sublist ''i remember'' (toLowerCase r)"
  shows "\<exists>rest. validatePsychologyAnalysis r um
                  = ''CRITICAL: AI claiming personal experiences'' # rest"
proof -
  have "regex_test_i personalExperience r"
    by (rule regex_test_iI [where p = "''I remember''"])
       (use assms in \<open>simp_all add: personalExperience_def str_includes_def toLowerCase_def
          lower_char_Char\<close>)
  then show ?thesis by (simp add: validatePsychologyAnalysis_def)
qed

lemma remember_lower:
  assumes "str_includes r ''I remember that song from my own childhood''"
  shows "sublist ''i remember'' (toLowerCase r)"
proof -
  from assms have "str_includes (toLowerCase r)
      (toLowerCase (''I remember'' @ '' that song from my own childhood''))"
    by (auto dest: str_includes_toLowerCase)
  then have "str_includes (toLowerCase r) (toLowerCase ''I remember'')"
    unfolding toLowerCase_append by (rule str_includes_append_left)
  then show ?thesis by (simp add: str_includes_def toLowerCase_def lower_char_Char)
qed

lemma validateAnalysisResponse_remember:
  assumes "sublist ''i remember'' (toLowerCase r)"
  shows "validateAnalysisResponse r um t st
         = (False, updateLastMessage
                     (createSafeAnalysisResponse um (validatePsychologyAnalysis r um))
                     100 [] t st)"
proof -
  have crit: "str_includes ''CRITICAL: AI claiming personal experiences'' ''CRITICAL''"
    by (simp add: str_includes_def sublist_code)
  from remember_flagged [OF assms] obtain rest
    where v: "validatePsychologyAnalysis r um
                = ''CRITICAL: AI claiming personal experiences'' # rest" by blast
  from remember_flagged [OF correctAnalysisLanguage_keeps_remember [OF assms]] obtain rest'
    where v': "validatePsychologyAnalysis (correctAnalysisLanguage r) um
                = ''CRITICAL: AI claiming personal experiences'' # rest'" by blast
  show ?thesis
    unfolding validateAnalysisResponse_def Let_def v'
    unfolding v [symmetric]
    using crit by (simp add: v)
qed

lemma createNewSession_currentSession:
  "currentSession (createNewSession k i t0 t1 st) =
     Some \<lparr>session_id = i, title = analysisTypeNames k, messages = [], createdAt = t0,
           updatedAt = t1, session_type = k, conversationState = createDefaultConversationState,
           psychologicalProfile = None\<rparr>"
  by (simp add: createNewSession_def Let_def)

lemma two_messages_current:
  "\<exists>cs. currentSession (addMessage b i2 t4 t5 (addMessage a i1 t2 t3
                 (createNewSession k i0 t0 t1 st))) = Some cs
        \<and> messages cs = [appended a i1 t2, appended b i2 t4]"
  by (simp add: addMessage_currentSession
        [OF addMessage_currentSession [OF createNewSession_currentSession]])

lemma summer_redirect:
  "createSafeAnalysisResponse summer_message vs = musical_analysis"
  by (simp add: createSafeAnalysisResponse_def summer_message_def str_eval)

lemma musical_analysis_clean: "\<not> str_includes musical_analysis ''I remember''"
  by (simp add: musical_analysis_def str_includes_def sublist_code)

text \<open>
  C1. In a session of type music, after the user message and an assistant message, a model
  reply that contains the first-person sentence is flagged with a \<open>CRITICAL:\<close> label by
  \<open>validatePsychologyAnalysis\<close>; the automatic correction does not remove the flag, so the
  orchestrator writes the musical-analysis redirect over the assistant message, and the
  stored content does not contain \<open>I remember\<close>.
\<close>

theorem first_person_reply_is_replaced:
  assumes "str_includes reply ''I remember that song from my own childhood''"
  shows "critical (validatePsychologyAnalysis reply summer_message)
    \<and> map_option (map content \<circ> messages)
        (currentSession
          (on_model_reply lrq reply summer_message t6 t7
            (addMessage (plain_message Assistant reply) i2 t4 t5
              (addMessage (plain_message User summer_message) i1 t2 t3
                (createNewSession Music i0 t0 t1 st)))))
       = Some [summer_message, musical_analysis]
    \<and> \<not> str_includes musical_analysis ''I remember''"
proof -
  let ?st1 = "addMessage (plain_message User summer_message) i1 t2 t3
                (createNewSession Music i0 t0 t1 st)"
  let ?st2 = "addMessage (plain_message Assistant reply) i2 t4 t5 ?st1"
  from assms have low: "sublist ''i remember'' (toLowerCase reply)" by (rule remember_lower)
  from remember_flagged [OF low, of summer_message]
  have crit: "critical (validatePsychologyAnalysis reply summer_message)"
    by (auto simp: critical_def)
  have reply: "on_model_reply lrq reply summer_message t6 t7 ?st2
                 = updateLastMessage musical_analysis 100 [] t6 ?st2"
    by (simp add: on_model_reply_def validateAnalysisResponse_remember [OF low] summer_redirect)
  from two_messages_current [of "plain_message Assistant reply" i2 t4 t5
         "plain_message User summer_message" i1 t2 t3 Music i0 t0 t1 st]
  obtain cs where cur: "currentSession ?st2 = Some cs"
    and ms: "messages cs = [appended (plain_message User summer_message) i1 t2,
                            appended (plain_message Assistant reply) i2 t4]"
    by blast
  from ms have ne: "messages cs \<noteq> []" and la: "role (last (messages cs)) = Assistant"
    by (simp_all add: appended_def plain_message_def)
  have "map_option (map content \<circ> messages)
          (currentSession (updateLastMessage musical_analysis 100 [] t6 ?st2))
        = Some [summer_message, musical_analysis]"
    unfolding updateLastMessage_assistant [OF cur ne la]
    by (simp add: ms appended_def plain_message_def)
  with crit reply musical_analysis_clean show ?thesis by simp
qed

theorem first_person_reply_is_replaced_witness:
  "critical (validatePsychologyAnalysis ''I remember that song from my own childhood''
               summer_message)
   \<and> map_option (map content \<circ> messages)
        (currentSession
          (on_model_reply None ''I remember that song from my own childhood'' summer_message 6 7
            (addMessage (plain_message Assistant ''I remember that song from my own childhood'')
               ''m2'' 4 5
              (addMessage (plain_message User summer_message) ''m1'' 2 3
                (createNewSession Music ''s1'' 0 1 initialState)))))
       = Some [summer_message, musical_analysis]"
proof -
  have "str_includes ''I remember that song from my own childhood''
          ''I remember that song from my own childhood''"
    by (simp add: str_includes_def)
  from first_person_reply_is_replaced [OF this, of None 6 7 "''m2''" 4 5 "''m1''" 2 3 "''s1''" 0 1 initialState]
  show ?thesis by simp
qed

end
